theory Spec2Isabelle
  imports Main "HOL-Library.AList"
begin

section \<open>Python values, errors and strings\<close>

text \<open>
  Exceptions of the Python source are values: every function that can raise returns
  \<open>error + 'a\<close>, with \<open>Inl\<close> the exception.
\<close>

datatype error =
    ValueError string
  | RuntimeError string
  | AssertionError
  | FileNotFoundError string
  | KeyError string
  | IndexError
  | AttributeError string
  | TypeError string

text \<open>
  The dynamically typed arguments of the path mapper and of the staging operations:
  a \<open>str\<close>, a \<open>path\<close> object (carrying its string form), a \<open>Sequence\<close> (list, tuple
  or \<open>sos_targets\<close>), a \<open>set\<close> (not a \<open>Sequence\<close>), \<open>None\<close>, and an integer standing
  for every other kind of object.
\<close>

datatype pyval =
    PStr string
  | PPath string
  | PSeq "pyval list"
  | PSet "pyval list"
  | PNone
  | PInt int

definition backslash :: char where
  "backslash = CHR 0x5C"

definition startswith :: "string \<Rightarrow> string \<Rightarrow> bool" where
  "startswith s p = (take (length p) s = p)"

definition endswith :: "string \<Rightarrow> string \<Rightarrow> bool" where
  "endswith s p = (length p \<le> length s \<and> drop (length s - length p) s = p)"

text \<open>\<^verbatim>\<open>dest.replace("\\", "/")\<close>\<close>

definition replace_backslash :: "string \<Rightarrow> string" where
  "replace_backslash s = map (\<lambda>c. if c = backslash then CHR ''/'' else c) s"







text \<open>\<^verbatim>\<open>max(matched, key=len)\<close>: the first element of maximal length.\<close>

fun max_len_from :: "string \<Rightarrow> string list \<Rightarrow> string" where
  "max_len_from best [] = best"
| "max_len_from best (k # ks) =
     max_len_from (if length best < length k then k else best) ks"

fun max_len :: "string list \<Rightarrow> error + string" where
  "max_len [] = Inl (ValueError ''max() arg is an empty sequence'')"
| "max_len (k # ks) = Inr (max_len_from k ks)"

section \<open>The environment of the operating system\<close>

text \<open>
  The path mapper reads the current directory and the file system through \<open>os\<close> and
  \<open>os.path\<close>, and resolves named paths through the external \<open>path\<close> type. They are
  parameters of the model:
  \<^item> \<open>getcwd\<close> is \<^verbatim>\<open>os.getcwd()\<close>;
  \<^item> \<open>abspath_expanduser p\<close> is \<^verbatim>\<open>os.path.abspath(os.path.expanduser(p))\<close>;
  \<^item> \<open>stat p\<close> is the identity (device and inode) of the file \<open>p\<close> refers to, \<open>None\<close>
    when \<open>p\<close> does not exist;
  \<^item> \<open>named_path s host\<close> is \<^verbatim>\<open>path(s, host=host)\<close> for a named path \<open>s\<close> (\<^verbatim>\<open>#name/...\<close>),
    which raises when the name is not defined for the host.
\<close>

record os_env =
  getcwd :: string
  abspath_expanduser :: "string \<Rightarrow> string"
  stat :: "string \<Rightarrow> nat option"
  named_path :: "string \<Rightarrow> string \<Rightarrow> error + string"

definition path_exists :: "os_env \<Rightarrow> string \<Rightarrow> bool" where
  "path_exists e p = (stat e p \<noteq> None)"

text \<open>\<^verbatim>\<open>os.path.samefile(f1, f2)\<close> stats both files and raises when one is missing.\<close>

definition samefile :: "os_env \<Rightarrow> string \<Rightarrow> string \<Rightarrow> error + bool" where
  "samefile e f1 f2 =
     (case stat e f1 of
        None \<Rightarrow> Inl (FileNotFoundError f1)
      | Some i \<Rightarrow>
          (case stat e f2 of
             None \<Rightarrow> Inl (FileNotFoundError f2)
           | Some j \<Rightarrow> Inr (i = j)))"

text \<open>\<^verbatim>\<open>os.path.exists(f1) and os.path.samefile(f1, f2)\<close>\<close>

definition exists_and_samefile :: "os_env \<Rightarrow> string \<Rightarrow> string \<Rightarrow> error + bool" where
  "exists_and_samefile e f1 f2 =
     (if path_exists e f1 then samefile e f1 f2 else Inr False)"

section \<open>Host configuration: \<open>_get_shared_dirs\<close> and \<open>_get_path_map\<close>\<close>

text \<open>
  A configuration value as \<open>_get_shared_dirs\<close> and \<open>_get_path_map\<close> look at it: absent
  (the default \<open>[]\<close> is used), a string, a sequence of strings, a dictionary, or
  something else, of which only the truth value matters.
\<close>

datatype cfg_value =
    CAbsent
  | CStr string
  | CSeq "string list"
  | CDict "(string \<times> string) list"
  | COther bool





fun copy_items :: "('k \<times> 'v) list \<Rightarrow> ('k \<times> 'v) list \<Rightarrow> ('k \<times> 'v) list" where
  "copy_items res [] = res"
| "copy_items res ((k, v) # kvs) = copy_items (AList.update k v res) kvs"


fun get_shared_dirs :: "cfg_value \<Rightarrow> error + string list" where
  "get_shared_dirs CAbsent = Inr []"
| "get_shared_dirs (CStr s) = Inr [s]"
| "get_shared_dirs (CSeq vs) = Inr vs"
| "get_shared_dirs c =
     Inl (ValueError ''Option shared can only be a string or a list of strings'')"

section \<open>The path mapper of a remote host\<close>

text \<open>The attributes of a \<open>RemoteHost\<close> that the path mapper and the staging read.\<close>

record remote_host =
  host_alias :: string
  address :: string
  port :: int
  shared_dirs :: "string list"
  path_map :: "(string \<times> string) list"

text \<open>\<open>is_shared\<close>: the loop over \<open>shared_dirs\<close>, with the test of issue 710 inside.\<close>

fun is_shared_loop :: "string \<Rightarrow> string list \<Rightarrow> string list \<Rightarrow> bool" where
  "is_shared_loop fullpath mdirs [] = False"
| "is_shared_loop fullpath mdirs (sdir # sdirs) =
     (if startswith fullpath sdir then
        (if \<not> list_ex (\<lambda>mdir. startswith fullpath mdir) mdirs then True
         else is_shared_loop fullpath mdirs sdirs)
      else is_shared_loop fullpath mdirs sdirs)"

definition is_shared :: "os_env \<Rightarrow> remote_host \<Rightarrow> string \<Rightarrow> bool" where
  "is_shared e h p =
     is_shared_loop (abspath_expanduser e p) (map fst (path_map h)) (shared_dirs h)"

text \<open>
  The body that \<open>_map_path\<close> and \<open>_map_var\<close> share for a string that is not a named
  path. First the absolute path, with the current directory's own spelling when its
  leading part is the current directory:
\<close>

definition canonical_dest :: "os_env \<Rightarrow> string \<Rightarrow> error + string" where
  "canonical_dest e source =
     (let cwd = getcwd e; dest = abspath_expanduser e source in
      case exists_and_samefile e (take (length cwd) dest) cwd of
        Inl x \<Rightarrow> Inl x
      | Inr same \<Rightarrow> Inr (if same then cwd @ drop (length cwd) dest else dest))"

text \<open>then the list comprehension \<open>matched\<close> over the keys, in the order of the dictionary:\<close>

fun matched_keys :: "os_env \<Rightarrow> string \<Rightarrow> string list \<Rightarrow> error + string list" where
  "matched_keys e dest [] = Inr []"
| "matched_keys e dest (k # ks) =
     (case exists_and_samefile e (take (length k) dest) k of
        Inl x \<Rightarrow> Inl x
      | Inr same \<Rightarrow>
          (case matched_keys e dest ks of
             Inl x \<Rightarrow> Inl x
           | Inr ms \<Rightarrow> Inr (if same then k # ms else ms)))"

text \<open>\<^verbatim>\<open>self.path_map[k]\<close>\<close>

definition path_map_at :: "(string \<times> string) list \<Rightarrow> string \<Rightarrow> error + string" where
  "path_map_at pm k = (case map_of pm k of None \<Rightarrow> Inl (KeyError k) | Some r \<Rightarrow> Inr r)"

text \<open>and the replacement of the longest matched key, with the separators normalised:\<close>

definition map_dest :: "os_env \<Rightarrow> (string \<times> string) list \<Rightarrow> string \<Rightarrow> error + string" where
  "map_dest e pm dest =
     (case matched_keys e dest (map fst pm) of
        Inl x \<Rightarrow> Inl x
      | Inr matched \<Rightarrow>
          (if matched \<noteq> [] then
             (case max_len matched of
                Inl x \<Rightarrow> Inl x
              | Inr k \<Rightarrow>
                  (case path_map_at pm k of
                     Inl x \<Rightarrow> Inl x
                   | Inr r \<Rightarrow> Inr (replace_backslash (r @ drop (length k) dest))))
           else Inr (replace_backslash dest)))"

definition local_to_remote :: "os_env \<Rightarrow> (string \<times> string) list \<Rightarrow> string \<Rightarrow> error + string" where
  "local_to_remote e pm source =
     (case canonical_dest e source of
        Inl x \<Rightarrow> Inl x
      | Inr dest \<Rightarrow> map_dest e pm dest)"

text \<open>\<open>_map_var\<close> on a string (a \<open>path\<close> object is turned into its string first).\<close>

definition map_var_str :: "os_env \<Rightarrow> remote_host \<Rightarrow> string \<Rightarrow> error + pyval" where
  "map_var_str e h source =
     (if startswith source ''#'' then
        (case named_path e source (host_alias h) of
           Inl x \<Rightarrow> Inl x
         | Inr p \<Rightarrow> Inr (PPath p))
      else
        (case local_to_remote e (path_map h) source of
           Inl x \<Rightarrow> Inl x
         | Inr d \<Rightarrow> Inr (PStr d)))"

fun map_var :: "os_env \<Rightarrow> remote_host \<Rightarrow> pyval \<Rightarrow> error + pyval"
  and map_var_each :: "os_env \<Rightarrow> remote_host \<Rightarrow> pyval list \<Rightarrow> error + pyval list" where
  "map_var e h (PPath s) = map_var_str e h s"
| "map_var e h (PStr s) = map_var_str e h s"
| "map_var e h (PSeq xs) =
     (case map_var_each e h xs of
        Inl x \<Rightarrow> Inl x
      | Inr ret \<Rightarrow> Inr (PSeq (filter (\<lambda>x. x \<noteq> PNone) ret)))"
| "map_var e h (PSet xs) =
     (case map_var_each e h xs of
        Inl x \<Rightarrow> Inl x
      | Inr ret \<Rightarrow> Inr (PSeq (filter (\<lambda>x. x \<noteq> PNone) ret)))"
| "map_var e h PNone = Inr PNone"
| "map_var e h (PInt n) = Inr (PInt n)"
| "map_var_each e h [] = Inr []"
| "map_var_each e h (x # xs) =
     (case map_var e h x of
        Inl err \<Rightarrow> Inl err
      | Inr y \<Rightarrow>
          (case map_var_each e h xs of
             Inl err \<Rightarrow> Inl err
           | Inr ys \<Rightarrow> Inr (y # ys)))"

text \<open>
  \<open>_reverse_map_var\<close> is lexical. The test of a candidate pair \<open>(l, r)\<close>, with Python's
  short-circuit order (the index \<open>len(r)\<close> is only read when \<open>r\<close> is a proper prefix):
\<close>

definition reverse_match :: "string \<Rightarrow> string \<Rightarrow> bool" where
  "reverse_match dest r =
     (if \<not> startswith dest r then False
      else if length r = length dest then True
      else if endswith r ''/'' then True
      else if endswith r [backslash] then True
      else dest ! length r = CHR ''/'' \<or> dest ! length r = backslash)"

definition reverse_matched :: "(string \<times> string) list \<Rightarrow> string \<Rightarrow> string list" where
  "reverse_matched pm dest = map fst (filter (\<lambda>(l, r). reverse_match dest r) pm)"

definition reverse_map_str :: "(string \<times> string) list \<Rightarrow> string \<Rightarrow> error + string" where
  "reverse_map_str pm dest =
     (let matched = reverse_matched pm dest in
      if matched \<noteq> [] then
        (case max_len matched of
           Inl x \<Rightarrow> Inl x
         | Inr k \<Rightarrow>
             (case path_map_at pm k of
                Inl x \<Rightarrow> Inl x
              | Inr r \<Rightarrow> Inr (replace_backslash (k @ drop (length r) dest))))
      else Inr (replace_backslash dest))"

fun reverse_map_var :: "remote_host \<Rightarrow> pyval \<Rightarrow> error + pyval"
  and reverse_map_var_each :: "remote_host \<Rightarrow> pyval list \<Rightarrow> error + pyval list" where
  "reverse_map_var h (PPath s) =
     (case reverse_map_str (path_map h) s of Inl x \<Rightarrow> Inl x | Inr d \<Rightarrow> Inr (PStr d))"
| "reverse_map_var h (PStr s) =
     (case reverse_map_str (path_map h) s of Inl x \<Rightarrow> Inl x | Inr d \<Rightarrow> Inr (PStr d))"
| "reverse_map_var h (PSeq xs) =
     (case reverse_map_var_each h xs of
        Inl x \<Rightarrow> Inl x
      | Inr ret \<Rightarrow> Inr (PSeq (filter (\<lambda>x. x \<noteq> PNone) ret)))"
| "reverse_map_var h (PSet xs) =
     (case reverse_map_var_each h xs of
        Inl x \<Rightarrow> Inl x
      | Inr ret \<Rightarrow> Inr (PSeq (filter (\<lambda>x. x \<noteq> PNone) ret)))"
| "reverse_map_var h PNone = Inr PNone"
| "reverse_map_var h (PInt n) = Inr (PInt n)"
| "reverse_map_var_each h [] = Inr []"
| "reverse_map_var_each h (x # xs) =
     (case reverse_map_var h x of
        Inl err \<Rightarrow> Inl err
      | Inr y \<Rightarrow>
          (case reverse_map_var_each h xs of
             Inl err \<Rightarrow> Inl err
           | Inr ys \<Rightarrow> Inr (y # ys)))"

text \<open>
  \<open>_map_path\<close> returns a dictionary from each source to its destination, an association
  list in insertion order; \<^verbatim>\<open>result.update(d)\<close> is \<^const>\<open>copy_items\<close>. A \<open>set\<close> is not a
  \<open>Sequence\<close>: it reaches the last branch, where it cannot be the key of a dictionary.
\<close>

fun map_path :: "os_env \<Rightarrow> remote_host \<Rightarrow> pyval \<Rightarrow> error + (pyval \<times> pyval) list"
  and map_path_each ::
    "os_env \<Rightarrow> remote_host \<Rightarrow> (pyval \<times> pyval) list \<Rightarrow> pyval list \<Rightarrow>
     error + (pyval \<times> pyval) list" where
  "map_path e h (PStr s) =
     (if startswith s ''#'' then
        (case named_path e s (host_alias h) of
           Inl x \<Rightarrow> Inl x
         | Inr r \<Rightarrow>
             (case named_path e s ''localhost'' of
                Inl x \<Rightarrow> Inl x
              | Inr l \<Rightarrow> Inr [(PPath l, PPath r)]))
      else
        (case local_to_remote e (path_map h) s of
           Inl x \<Rightarrow> Inl x
         | Inr d \<Rightarrow> Inr [(PStr s, PStr d)]))"
| "map_path e h (PPath s) =
     (case local_to_remote e (path_map h) s of
        Inl x \<Rightarrow> Inl x
      | Inr d \<Rightarrow> Inr [(PPath s, PStr d)])"
| "map_path e h (PSeq xs) = map_path_each e h [] xs"
| "map_path e h (PSet xs) = Inl (TypeError ''unhashable type: set'')"
| "map_path e h PNone = Inr [(PNone, PNone)]"
| "map_path e h (PInt n) = Inr [(PInt n, PInt n)]"
| "map_path_each e h result [] = Inr result"
| "map_path_each e h result (src # rest) =
     (case map_path e h src of
        Inl x \<Rightarrow> Inl x
      | Inr d \<Rightarrow> map_path_each e h (copy_items result d) rest)"

text \<open>
  Inode identity of two paths, as the claims speak of it: both exist and are the same
  file.
\<close>

definition same_inode :: "os_env \<Rightarrow> string \<Rightarrow> string \<Rightarrow> bool" where
  "same_inode e f1 f2 = (case stat e f1 of None \<Rightarrow> False | Some i \<Rightarrow> stat e f2 = Some i)"

section \<open>Staging: \<open>send_to_host\<close> and \<open>receive_from_host\<close>\<close>

text \<open>
  What an operation does besides returning is a list of events, in order: a message to
  the logger (or to the log file, for \<^verbatim>\<open>env.log_to_file\<close>), a command handed to
  \<^verbatim>\<open>subprocess.call\<close> or \<^verbatim>\<open>subprocess.check_call\<close>, a directory created, a file made writable,
  the captured output of a task shown by \<open>_show_err_and_out\<close>. A transfer command is the
  send or the receive template (the variant that renames or the plain one) with its
  source and destination; the other commands are the \<open>scp\<close> of the files of a task and
  the upload of a job file.
\<close>

datatype log_level = LDebug | LInfo | LWarning | LError | LFile

datatype command =
    SendCmd bool string string
  | ReceiveCmd bool string string
  | ScpCmd string
  | SendJobCmd string

datatype event =
    Log log_level string
  | Call command
  | MakeDirs string
  | Chmod string
  | ShowErrOut string

text \<open>
  The collaborators of the staging are parameters: the expansion of a path as a glob
  against its parent directory, \<open>find_symbolic_links\<close>, the exit code of a transfer
  command, \<^verbatim>\<open>os.path.isdir\<close>, the outcome of \<^verbatim>\<open>os.makedirs\<close>, Python's \<open>sorted\<close> on the
  keys of a dictionary, and whether \<open>TASK\<close> or \<open>ALL\<close> is in \<open>SOS_DEBUG\<close>.
\<close>

record stage_env =
  path_glob :: "string \<Rightarrow> string list"
  find_symbolic_links :: "string \<Rightarrow> (string \<times> string) list"
  subprocess_call :: "command \<Rightarrow> int"
  isdir :: "string \<Rightarrow> bool"
  makedirs :: "string \<Rightarrow> error option"
  py_sorted :: "pyval list \<Rightarrow> pyval list"
  debug_task :: bool

text \<open>\<^verbatim>\<open>isinstance(x, str)\<close>, \<^verbatim>\<open>isinstance(x, path)\<close>, \<^verbatim>\<open>isinstance(x, Sequence)\<close> (a string is a
  sequence too, a set is not) and \<^verbatim>\<open>str(x)\<close> of a string or a path.\<close>

fun is_str :: "pyval \<Rightarrow> bool" where
  "is_str (PStr s) = True"
| "is_str v = False"

fun is_path :: "pyval \<Rightarrow> bool" where
  "is_path (PPath s) = True"
| "is_path v = False"

fun is_sequence :: "pyval \<Rightarrow> bool" where
  "is_sequence (PStr s) = True"
| "is_sequence (PSeq xs) = True"
| "is_sequence v = False"

fun pystr :: "pyval \<Rightarrow> string" where
  "pystr (PStr s) = s"
| "pystr (PPath s) = s"
| "pystr v = []"

text \<open>The POSIX forms of \<^verbatim>\<open>os.path.isabs\<close>, \<^verbatim>\<open>os.path.join\<close>, \<^verbatim>\<open>os.path.basename\<close>,
  \<^verbatim>\<open>os.path.dirname\<close>, and \<^verbatim>\<open>s.rstrip("/")\<close>.\<close>

definition isabs :: "string \<Rightarrow> bool" where
  "isabs p = startswith p ''/''"

definition path_join :: "string \<Rightarrow> string \<Rightarrow> string" where
  "path_join a b =
     (if startswith b ''/'' then b
      else if a = [] \<or> endswith a ''/'' then a @ b
      else a @ ''/'' @ b)"

definition basename :: "string \<Rightarrow> string" where
  "basename p = rev (takeWhile (\<lambda>c. c \<noteq> CHR ''/'') (rev p))"

definition rstrip_slash :: "string \<Rightarrow> string" where
  "rstrip_slash p = rev (dropWhile (\<lambda>c. c = CHR ''/'') (rev p))"

definition dirname :: "string \<Rightarrow> string" where
  "dirname p =
     (let head = rev (dropWhile (\<lambda>c. c \<noteq> CHR ''/'') (rev p)) in
      if head \<noteq> [] \<and> \<not> list_all (\<lambda>c. c = CHR ''/'') head then rstrip_slash head else head)"

definition remote_abs :: "os_env \<Rightarrow> remote_host \<Rightarrow> pyval \<Rightarrow> error + string" where
  "remote_abs e h v =
     (let p = pystr v in
      if isabs p then Inr p
      else
        (case map_var e h (PStr (getcwd e)) of
           Inl x \<Rightarrow> Inl x
         | Inr cwd \<Rightarrow> Inr (path_join (pystr cwd) p)))"

text \<open>The first step of \<open>send_to_host\<close>: the paths to send, or nothing when the argument
  is not recognised. The external constructor \<open>path(x)\<close> is taken to keep the string of
  \<open>x\<close>.\<close>

fun items_to_send :: "pyval \<Rightarrow> event list \<times> pyval list option" where
  "items_to_send (PStr s) = ([], Some [PPath s])"
| "items_to_send (PPath s) = ([], Some [PPath s])"
| "items_to_send (PSeq xs) =
     ((if filter (\<lambda>x. \<not> (is_str x \<or> is_path x)) xs \<noteq> [] then [Log LInfo ''``Ignore``''] else []),
      Some (map (\<lambda>x. PPath (pystr x)) (filter (\<lambda>x. is_str x \<or> is_path x) xs)))"
| "items_to_send v = ([Log LWarning ''Unrecognized items to be sent to host''], None)"

definition dict_at :: "(pyval \<times> 'v) list \<Rightarrow> pyval \<Rightarrow> error + 'v" where
  "dict_at d k = (case map_of d k of None \<Rightarrow> Inl (KeyError (pystr k)) | Some v \<Rightarrow> Inr v)"

text \<open>The loop over the sorted sources, with the dictionary \<open>sent\<close>.\<close>

fun send_each ::
  "os_env \<Rightarrow> stage_env \<Rightarrow> remote_host \<Rightarrow> (pyval \<times> pyval) list \<Rightarrow> pyval list \<Rightarrow>
   (pyval \<times> string) list \<Rightarrow> event list \<times> (error + (pyval \<times> string) list)" where
  "send_each e se h sending [] sent = ([], Inr sent)"
| "send_each e se h sending (source # rest) sent =
     (case dict_at sending source of
        Inl x \<Rightarrow> ([], Inl x)
      | Inr d \<Rightarrow>
          (case remote_abs e h d of
             Inl x \<Rightarrow> ([], Inl x)
           | Inr dest \<Rightarrow>
               (if is_shared e h (pystr source) then
                  (let ev = (if debug_task se then [Log LFile ''Skip sending on shared file system''] else []);
                       (evs, r) = send_each e se h sending rest (AList.update source dest sent)
                   in (ev @ evs, r))
                else
                  (let cmd = SendCmd (basename (pystr source) \<noteq> basename dest)
                               (rstrip_slash (pystr source)) dest;
                       ev = (if debug_task se then [Log LFile ''Sending'', Log LFile ''cmd''] else [])
                             @ [Call cmd]
                   in if subprocess_call se cmd \<noteq> 0 then
                        (ev, Inl (RuntimeError ''Failed to copy. The remote host might be unavailable.''))
                      else
                        (let (evs, r) = send_each e se h sending rest (AList.update source dest sent)
                         in (ev @ evs, r))))))"

definition send_to_host ::
  "os_env \<Rightarrow> stage_env \<Rightarrow> remote_host \<Rightarrow> pyval \<Rightarrow> event list \<times> (error + (pyval \<times> string) list)" where
  "send_to_host e se h items =
     (case items_to_send items of
        (ev, None) \<Rightarrow> (ev, Inr [])
      | (ev, Some p) \<Rightarrow>
          (let items1 = concat (map (\<lambda>x. map PPath (path_glob se (pystr x))) p);
               links = concat (map (\<lambda>item. find_symbolic_links se (pystr item)) items1);
               ev2 = map (\<lambda>(link, realpath). Log LInfo ''Adding realpath for symbolic link'') links;
               items2 = items1 @ map (\<lambda>(link, realpath). PStr realpath) links
           in case map_path e h (PSeq items2) of
                Inl x \<Rightarrow> (ev @ ev2, Inl x)
              | Inr sending \<Rightarrow>
                  (let (ev3, r) = send_each e se h sending (py_sorted se (map fst sending)) []
                   in (ev @ ev2 @ ev3, r))))"

text \<open>The first step of \<open>receive_from_host\<close>.\<close>

fun items_to_receive :: "pyval \<Rightarrow> event list \<times> pyval list option" where
  "items_to_receive (PStr s) = ([], Some [PStr s])"
| "items_to_receive (PPath s) = ([], Some [PStr s])"
| "items_to_receive (PSeq xs) =
     ((if filter (\<lambda>x. \<not> (is_str x \<or> is_path x)) xs \<noteq> [] then [Log LInfo ''``Ignore``''] else []),
      Some (filter (\<lambda>x. is_str x \<or> is_path x) xs))"
| "items_to_receive v = ([Log LWarning ''Unrecognized items to be retrieved from host''], None)"

text \<open>The dictionary comprehension \<open>receiving\<close>, from the absolute remote path to the
  local string.\<close>

fun receiving_of ::
  "os_env \<Rightarrow> remote_host \<Rightarrow> (pyval \<times> string) list \<Rightarrow> (pyval \<times> pyval) list \<Rightarrow>
   error + (pyval \<times> string) list" where
  "receiving_of e h acc [] = Inr acc"
| "receiving_of e h acc ((x, y) # rest) =
     (case remote_abs e h y of
        Inl err \<Rightarrow> Inl err
      | Inr src \<Rightarrow> receiving_of e h (AList.update (PStr src) (pystr x) acc) rest)"

fun receive_each ::
  "os_env \<Rightarrow> stage_env \<Rightarrow> remote_host \<Rightarrow> (pyval \<times> string) list \<Rightarrow> pyval list \<Rightarrow>
   (string \<times> string) list \<Rightarrow> event list \<times> (error + (string \<times> string) list)" where
  "receive_each e se h receiving [] received = ([], Inr received)"
| "receive_each e se h receiving (source # rest) received =
     (case dict_at receiving source of
        Inl x \<Rightarrow> ([], Inl x)
      | Inr dest \<Rightarrow>
          (let dest_dir = dirname dest;
               ev1 = (if dest_dir \<noteq> [] \<and> \<not> isdir se dest_dir then
                        MakeDirs dest_dir #
                          (case makedirs se dest_dir of
                             None \<Rightarrow> []
                           | Some err \<Rightarrow> [Log LError ''Failed to create destination directory''])
                      else [])
           in if is_shared e h dest \<and> basename (pystr source) = basename dest then
                (let (evs, r) = receive_each e se h receiving rest
                                  (AList.update dest (pystr source) received)
                 in (ev1 @ [Log LDebug ''Skip retrieving from shared file system''] @ evs, r))
              else
                (let cmd = ReceiveCmd (basename (pystr source) \<noteq> basename dest)
                             (rstrip_slash (pystr source)) dest;
                     ev2 = ev1 @ (if debug_task se then [Log LFile ''cmd''] else []) @ [Call cmd]
                 in if subprocess_call se cmd \<noteq> 0 then
                      (ev2, Inl (RuntimeError ''Failed to copy from the remote host''))
                    else
                      (let (evs, r) = receive_each e se h receiving rest
                                        (AList.update dest (pystr source) received)
                       in (ev2 @ evs, r)))))"

definition receive_from_host ::
  "os_env \<Rightarrow> stage_env \<Rightarrow> remote_host \<Rightarrow> pyval \<Rightarrow> event list \<times> (error + (string \<times> string) list)" where
  "receive_from_host e se h items =
     (case items_to_receive items of
        (ev, None) \<Rightarrow> (ev, Inr [])
      | (ev, Some its) \<Rightarrow>
          (case map_path e h (PSeq its) of
             Inl x \<Rightarrow> (ev, Inl x)
           | Inr mapped \<Rightarrow>
               (case receiving_of e h [] mapped of
                  Inl x \<Rightarrow> (ev, Inl x)
                | Inr receiving \<Rightarrow>
                    (let (ev2, r) = receive_each e se h receiving
                                      (py_sorted se (map fst receiving)) []
                     in (ev @ ev2, r)))))"

section \<open>Task files\<close>

text \<open>
  The external \<open>TaskFile\<close> as the agents read it. A value of \<open>_input\<close>, \<open>_depends\<close> or
  \<open>_output\<close> is an instance of the class \<open>Undetermined\<close>, or a \<open>sos_targets\<close> with its
  \<open>undetermined()\<close> flag and its targets; a \<open>sos_targets\<close> is true when it has targets.
\<close>

datatype targets = Undetermined | Targets bool "pyval list"

fun targets_truthy :: "targets \<Rightarrow> bool" where
  "targets_truthy Undetermined = True"
| "targets_truthy (Targets u items) = (items \<noteq> [])"

fun is_Undetermined :: "targets \<Rightarrow> bool" where
  "is_Undetermined Undetermined = True"
| "is_Undetermined (Targets u items) = False"

fun targets_items :: "targets \<Rightarrow> pyval list" where
  "targets_items Undetermined = []"
| "targets_items (Targets u items) = items"

record task_runtime =
  rt_verbosity :: "int option"
  rt_sig_mode :: "string option"
  rt_run_mode :: "string option"
  rt_walltime :: "string option"
  rt_cores :: "int option"
  rt_mem :: "int option"
  rt_workdir :: "string option"
  rt_to_host :: "pyval option"
  rt_from_host :: "pyval option"

record sos_dict =
  sd_input :: targets
  sd_depends :: targets
  sd_output :: "targets option"
  sd_runtime :: task_runtime

record sub_result =
  sub_ret_code :: "int option"
  sub_output :: "pyval option"

record task_result =
  r_ret_code :: "int option"
  r_succ :: "int option"
  r_output :: "pyval option"
  r_subtasks :: "(string \<times> sub_result) list option"
  r_task :: "string option"
  r_exception :: "error option"

text \<open>A key of a host configuration: absent, present with the value \<open>None\<close>, or present
  with a value.\<close>

datatype 'a config_key = KeyAbsent | KeyNone | KeyValue 'a

text \<open>The runtime that \<open>prepare_task\<close> writes back: the copied keys of \<open>_runtime\<close>, the
  working directory, the ceilings of the host (the walltime as \<open>format_HHMMSS\<close> returned
  it, when the key is there), and for a remote host the key of the task and the
  \<open>localhost\<close> section.\<close>

record stored_runtime =
  sr_runtime :: task_runtime
  sr_max_mem :: "int config_key"
  sr_max_cores :: "int config_key"
  sr_max_walltime :: "string option"
  sr_task_key :: "string option"
  sr_localhost :: bool

record task_file =
  tf_params :: sos_dict
  tf_task_stack :: "(string \<times> sos_dict) list"
  tf_runtime :: "stored_runtime option"
  tf_status :: string
  tf_result :: "task_result option"

section \<open>\<open>RemoteHost.receive_result\<close>\<close>

text \<open>
  The surroundings of \<open>receive_result\<close>: the local files of the task that are not
  writable, the exit codes of the first and of the second \<open>scp\<close>, \<^verbatim>\<open>env.verbosity\<close> and
  \<^verbatim>\<open>env.config["run_mode"]\<close>. The task file \<open>tf\<close> is \<open>TaskFile(task_id)\<close> as read after the
  copy; its result is \<open>None\<close> when there is none (or an empty one).
\<close>

record result_env =
  readonly_files :: "string list"
  scp_first :: int
  scp_second :: int
  env_verbosity :: int
  env_run_mode :: string

definition result_failed :: "task_result \<Rightarrow> bool" where
  "result_failed res =
     ((case r_ret_code res of None \<Rightarrow> False | Some c \<Rightarrow> c \<noteq> 0) \<or>
      (case r_succ res of None \<Rightarrow> False | Some c \<Rightarrow> c \<noteq> 0))"

definition no_result :: "string \<Rightarrow> task_result" where
  "no_result task_id =
     \<lparr>r_ret_code = Some 1, r_succ = None, r_output = Some (PSeq []), r_subtasks = None,
      r_task = Some task_id, r_exception = Some (RuntimeError ''Task failed or aborted'')\<rparr>"

text \<open>The external constructor \<open>sos_targets(v)\<close> is taken to collect the elements of a
  list and to wrap a single value.\<close>

fun sos_targets_of :: "pyval \<Rightarrow> pyval" where
  "sos_targets_of (PSeq xs) = PSeq xs"
| "sos_targets_of v = PSeq [v]"

text \<open>
  The three branches that rewrite an \<open>output\<close> field, from the \<open>_output\<close> of the task (or
  of the subtask). The class \<open>Undetermined\<close> is taken to have no method \<open>undetermined\<close>.
\<close>

fun rewrite_output ::
  "remote_host \<Rightarrow> string \<Rightarrow> targets option \<Rightarrow> pyval \<Rightarrow> event list \<times> (error + pyval)" where
  "rewrite_output h missing None out = ([Log LWarning missing], Inr (PSeq []))"
| "rewrite_output h missing (Some Undetermined) out =
     ([], Inl (AttributeError ''undetermined''))"
| "rewrite_output h missing (Some (Targets u items)) out =
     (if u then
        (case reverse_map_var h out of
           Inl x \<Rightarrow> ([], Inl x)
         | Inr v \<Rightarrow> ([], Inr (sos_targets_of v)))
      else ([], Inr (PSeq items)))"

text \<open>The loop over \<open>params.task_stack\<close>, on the dictionary \<^verbatim>\<open>res["subtasks"]\<close>.\<close>

fun rewrite_subtasks ::
  "remote_host \<Rightarrow> (string \<times> sub_result) list \<Rightarrow> (string \<times> sos_dict) list \<Rightarrow>
   event list \<times> (error + (string \<times> sub_result) list)" where
  "rewrite_subtasks h subs [] = ([], Inr subs)"
| "rewrite_subtasks h subs ((tid, subparams) # rest) =
     (case map_of subs tid of
        None \<Rightarrow> rewrite_subtasks h subs rest
      | Some sub \<Rightarrow>
          (case sub_output sub of
             None \<Rightarrow> rewrite_subtasks h subs rest
           | Some out \<Rightarrow>
               (case rewrite_output h ''Missing _output in subparams'' (sd_output subparams) out of
                  (ev, Inl x) \<Rightarrow> (ev, Inl x)
                | (ev, Inr v) \<Rightarrow>
                    (let (evs, r) = rewrite_subtasks h
                                      (AList.update tid (sub\<lparr>sub_output := Some v\<rparr>) subs) rest
                     in (ev @ evs, r)))))"

text \<open>The copy of the declared outputs and of \<open>from_host\<close> back to the local host.\<close>

definition receive_outputs ::
  "os_env \<Rightarrow> stage_env \<Rightarrow> result_env \<Rightarrow> remote_host \<Rightarrow> sos_dict \<Rightarrow> event list \<times> (error + unit)" where
  "receive_outputs e se re h job_dict =
     (case sd_output job_dict of
        None \<Rightarrow> ([], Inr ())
      | Some out \<Rightarrow>
          (if targets_truthy out \<and> \<not> is_Undetermined out \<and> env_run_mode re \<noteq> ''dryrun'' then
             (case receive_from_host e se h
                     (PSeq (filter (\<lambda>x. is_str x \<or> is_path x) (targets_items out))) of
                (ev, Inl x) \<Rightarrow> (ev, Inl x)
              | (ev, Inr received) \<Rightarrow>
                  (ev @ (if received \<noteq> [] then [Log LInfo ''received''] else []), Inr ()))
           else ([], Inr ())))"

definition receive_from_hosts ::
  "os_env \<Rightarrow> stage_env \<Rightarrow> result_env \<Rightarrow> remote_host \<Rightarrow> sos_dict \<Rightarrow> event list \<times> (error + unit)" where
  "receive_from_hosts e se re h job_dict =
     (case rt_from_host (sd_runtime job_dict) of
        None \<Rightarrow> ([], Inr ())
      | Some from_host \<Rightarrow>
          (if env_run_mode re \<noteq> ''dryrun'' then
             (if is_sequence from_host then
                (case receive_from_host e se h from_host of
                   (ev, Inl x) \<Rightarrow> (ev, Inl x)
                 | (ev, Inr received) \<Rightarrow>
                     (ev @ (if received \<noteq> [] then [Log LInfo ''received''] else []), Inr ()))
              else ([Log LWarning ''Expecting a string or list of string from from_host''], Inr ()))
           else ([], Inr ())))"

text \<open>The translation of the result from remote paths to local ones, at the top level
  and in the subtasks.\<close>

definition translate_output ::
  "remote_host \<Rightarrow> task_file \<Rightarrow> task_result \<Rightarrow> event list \<times> (error + task_result)" where
  "translate_output h tf res =
     (case r_output res of
        None \<Rightarrow> ([], Inr res)
      | Some out \<Rightarrow>
          (case rewrite_output h ''Missing _output in task dict''
                  (sd_output (tf_params tf)) out of
             (ev, Inl x) \<Rightarrow> (ev, Inl x)
           | (ev, Inr v) \<Rightarrow> (ev, Inr (res\<lparr>r_output := Some v\<rparr>))))"

definition translate_subtasks ::
  "remote_host \<Rightarrow> task_file \<Rightarrow> task_result \<Rightarrow> event list \<times> (error + task_result)" where
  "translate_subtasks h tf res =
     (case r_subtasks res of
        None \<Rightarrow> ([], Inr res)
      | Some subs \<Rightarrow>
          (case rewrite_subtasks h subs (tf_task_stack tf) of
             (evs, Inl x) \<Rightarrow> (evs, Inl x)
           | (evs, Inr subs1) \<Rightarrow> (evs, Inr (res\<lparr>r_subtasks := Some subs1\<rparr>))))"

definition translate_result ::
  "remote_host \<Rightarrow> task_file \<Rightarrow> task_result \<Rightarrow> event list \<times> (error + task_result)" where
  "translate_result h tf res =
     (case translate_output h tf res of
        (ev, Inl x) \<Rightarrow> (ev, Inl x)
      | (ev, Inr res1) \<Rightarrow>
          (case translate_subtasks h tf res1 of
             (evs, r) \<Rightarrow> (ev @ evs, r)))"

text \<open>The part of \<open>receive_result\<close> after the failed jobs have been set aside: the
  copies, then the translation.\<close>

definition stage_and_translate ::
  "os_env \<Rightarrow> stage_env \<Rightarrow> result_env \<Rightarrow> remote_host \<Rightarrow> task_file \<Rightarrow> task_result \<Rightarrow>
   event list \<times> (error + task_result)" where
  "stage_and_translate e se re h tf res =
     (case receive_outputs e se re h (tf_params tf) of
        (ev3, Inl x) \<Rightarrow> (ev3, Inl x)
      | (ev3, Inr u) \<Rightarrow>
          (case receive_from_hosts e se re h (tf_params tf) of
             (ev4, Inl x) \<Rightarrow> (ev3 @ ev4, Inl x)
           | (ev4, Inr u) \<Rightarrow>
               (case translate_result h tf res of
                  (ev5, r) \<Rightarrow> (ev3 @ ev4 @ ev5, r))))"

text \<open>The part after the files of the task have been copied.\<close>

definition read_result ::
  "os_env \<Rightarrow> stage_env \<Rightarrow> result_env \<Rightarrow> remote_host \<Rightarrow> string \<Rightarrow> task_file \<Rightarrow>
   event list \<times> (error + task_result)" where
  "read_result e se re h task_id tf =
     (case tf_result tf of
        None \<Rightarrow> ([Log LDebug ''Result is not received (no result)''], Inr (no_result task_id))
      | Some res \<Rightarrow>
          (if result_failed res then
             ([ShowErrOut task_id, Log LInfo ''Ignore remote results for failed job''], Inr res)
           else
             (case stage_and_translate e se re h tf res of
                (ev, r) \<Rightarrow> ((if 3 \<le> env_verbosity re then [ShowErrOut task_id] else []) @ ev, r))))"

definition receive_result ::
  "os_env \<Rightarrow> stage_env \<Rightarrow> result_env \<Rightarrow> remote_host \<Rightarrow> string \<Rightarrow> task_file \<Rightarrow>
   event list \<times> (error + task_result)" where
  "receive_result e se re h task_id tf =
     (let ev0 = map Chmod (readonly_files re)
                @ (if debug_task se then [Log LFile ''receive_cmd''] else [])
                @ [Call (ScpCmd task_id)]
      in if scp_first re \<noteq> 0 then
           (if scp_second re \<noteq> 0 then
              (ev0 @ [Call (ScpCmd task_id)], Inl (RuntimeError ''Failed to retrieve result of job''))
            else
              (case read_result e se re h task_id tf of
                 (ev, r) \<Rightarrow> (ev0 @ [Call (ScpCmd task_id)] @ ev, r)))
         else
           (case read_result e se re h task_id tf of
              (ev, r) \<Rightarrow> (ev0 @ ev, r)))"

text \<open>
  What an \<open>output\<close> field \<open>out\<close> has become, from the \<open>_output\<close> of its task: empty when
  there is none, mapped back to local paths when the \<open>_output\<close> is an undetermined
  \<open>sos_targets\<close>, and the \<open>_output\<close> itself otherwise.
\<close>

definition output_rule :: "remote_host \<Rightarrow> targets option \<Rightarrow> pyval \<Rightarrow> pyval \<Rightarrow> bool" where
  "output_rule h declared out new =
     (case declared of
        None \<Rightarrow> new = PSeq []
      | Some Undetermined \<Rightarrow> False
      | Some (Targets u items) \<Rightarrow>
          (if u then
             (case reverse_map_var h out of Inl x \<Rightarrow> False | Inr v \<Rightarrow> new = sos_targets_of v)
           else new = PSeq items))"

section \<open>\<open>prepare_task\<close>\<close>

text \<open>
  The three resource ceilings of \<^verbatim>\<open>self.config\<close>: bytes, a number of cores, and a time
  given as a string.
\<close>

record host_limits =
  max_mem :: "int config_key"
  max_cores :: "int config_key"
  max_walltime :: "string config_key"

text \<open>
  The collaborators of \<open>prepare_task\<close>: the task files of \<^verbatim>\<open>~/.sos/tasks\<close>, the external
  \<open>expand_time\<close> and \<open>format_HHMMSS\<close> (each of which may reject its argument and raise;
  \<open>format_HHMMSS\<close> is also given the value \<open>None\<close>, here the argument \<open>None\<close>, when the key
  \<open>max_walltime\<close> is there with that value), the named form of the current directory,
  and whether the upload of the job file succeeds.
\<close>

record prep_env =
  expand_time :: "string \<Rightarrow> error + int"
  format_HHMMSS :: "string option \<Rightarrow> error + string"
  cwd_named :: string
  send_job_ok :: bool

type_synonym task_store = "string \<Rightarrow> task_file option"

text \<open>The three tests, which both agents make in the same order; a key that is absent
  or \<open>None\<close>, in the configuration or in the \<open>_runtime\<close> of the task, passes its test.\<close>

definition exceeds_mem :: "host_limits \<Rightarrow> task_runtime \<Rightarrow> bool" where
  "exceeds_mem lim rt =
     (case max_mem lim of
        KeyValue m \<Rightarrow> (case rt_mem rt of None \<Rightarrow> False | Some requested \<Rightarrow> m < requested)
      | _ \<Rightarrow> False)"

definition exceeds_cores :: "host_limits \<Rightarrow> task_runtime \<Rightarrow> bool" where
  "exceeds_cores lim rt =
     (case max_cores lim of
        KeyValue m \<Rightarrow> (case rt_cores rt of None \<Rightarrow> False | Some requested \<Rightarrow> m < requested)
      | _ \<Rightarrow> False)"

definition exceeds_walltime :: "prep_env \<Rightarrow> host_limits \<Rightarrow> task_runtime \<Rightarrow> error + bool" where
  "exceeds_walltime pe lim rt =
     (case max_walltime lim of
        KeyValue m \<Rightarrow>
          (case rt_walltime rt of
             None \<Rightarrow> Inr False
           | Some requested \<Rightarrow>
               (case expand_time pe m of
                  Inl x \<Rightarrow> Inl x
                | Inr allowed \<Rightarrow>
                    (case expand_time pe requested of
                       Inl x \<Rightarrow> Inl x
                     | Inr wanted \<Rightarrow> Inr (allowed < wanted))))
      | _ \<Rightarrow> Inr False)"

text \<open>The message of the first test that fails, if any.\<close>

definition ceiling_exceeded :: "prep_env \<Rightarrow> host_limits \<Rightarrow> task_runtime \<Rightarrow> error + string option" where
  "ceiling_exceeded pe lim rt =
     (if exceeds_mem lim rt then Inr (Some ''Task requested more mem than allowed max_mem'')
      else if exceeds_cores lim rt then
        Inr (Some ''Task requested more cores than allowed max_cores'')
      else
        (case exceeds_walltime pe lim rt of
           Inl x \<Rightarrow> Inl x
         | Inr over \<Rightarrow>
             Inr (if over then Some ''Task requested more walltime than allowed max_walltime''
                  else None)))"

text \<open>The keys of \<open>_runtime\<close> that are copied, and the runtime that is written back.\<close>

definition copied_runtime :: "task_runtime \<Rightarrow> task_runtime" where
  "copied_runtime rt = rt\<lparr>rt_workdir := None, rt_to_host := None, rt_from_host := None\<rparr>"

definition new_runtime ::
  "host_limits \<Rightarrow> string option \<Rightarrow> task_runtime \<Rightarrow> string \<Rightarrow> string option \<Rightarrow> bool \<Rightarrow>
   stored_runtime" where
  "new_runtime lim formatted rt workdir key remote =
     \<lparr>sr_runtime = (copied_runtime rt)\<lparr>rt_workdir := Some workdir\<rparr>,
      sr_max_mem = max_mem lim, sr_max_cores = max_cores lim,
      sr_max_walltime = formatted,
      sr_task_key = key, sr_localhost = remote\<rparr>"

text \<open>
  The loop that copies the ceilings of the host into the runtime calls
  \<^verbatim>\<open>format_HHMMSS(self.config["max_walltime"])\<close> when the key is there, whatever its
  value, and that call raises when the value is not a time.
\<close>

definition format_max_walltime :: "prep_env \<Rightarrow> host_limits \<Rightarrow> error + string option" where
  "format_max_walltime pe lim =
     (case max_walltime lim of
        KeyAbsent \<Rightarrow> Inr None
      | KeyNone \<Rightarrow>
          (case format_HHMMSS pe None of
             Inl x \<Rightarrow> Inl x
           | Inr formatted \<Rightarrow> Inr (Some formatted))
      | KeyValue w \<Rightarrow>
          (case format_HHMMSS pe (Some w) of
             Inl x \<Rightarrow> Inl x
           | Inr formatted \<Rightarrow> Inr (Some formatted)))"

text \<open>
  \<open>LocalHost.prepare_task\<close>: a missing task file raises; the ceilings are copied into
  the runtime, the walltime formatted, before the three tests are made; a request over
  a ceiling is logged and answered with \<open>False\<close>; otherwise the runtime and the status
  \<open>pending\<close> are written (the job file is already where \<open>send_job_file\<close> would copy it).
\<close>

definition local_prepare_task ::
  "os_env \<Rightarrow> prep_env \<Rightarrow> host_limits \<Rightarrow> string \<Rightarrow> task_store \<Rightarrow>
   event list \<times> (error + bool) \<times> task_store" where
  "local_prepare_task e pe lim task_id store =
     (case store task_id of
        None \<Rightarrow> ([], Inl (ValueError ''Missing task definition''), store)
      | Some tf \<Rightarrow>
          (let task_vars = sd_runtime (tf_params tf);
               workdir = (case rt_workdir task_vars of Some w \<Rightarrow> w | None \<Rightarrow> getcwd e)
           in case format_max_walltime pe lim of
                Inl x \<Rightarrow> ([], Inl x, store)
              | Inr formatted \<Rightarrow>
                  (case ceiling_exceeded pe lim task_vars of
                     Inl x \<Rightarrow> ([], Inl x, store)
                   | Inr (Some msg) \<Rightarrow> ([Log LError msg], Inr False, store)
                   | Inr None \<Rightarrow>
                       ([], Inr True,
                        store(task_id \<mapsto>
                          tf\<lparr>tf_runtime := Some (new_runtime lim formatted task_vars workdir None False),
                            tf_status := ''pending''\<rparr>)))))"

text \<open>The staging of \<open>_input\<close>, \<open>_depends\<close> and \<open>to_host\<close> in \<open>RemoteHost._prepare_task\<close>.\<close>

definition send_and_log ::
  "os_env \<Rightarrow> stage_env \<Rightarrow> remote_host \<Rightarrow> pyval \<Rightarrow> event list \<times> (error + unit)" where
  "send_and_log e se h items =
     (case send_to_host e se h items of
        (ev, Inl x) \<Rightarrow> (ev, Inl x)
      | (ev, Inr sent) \<Rightarrow> (ev @ (if sent \<noteq> [] then [Log LInfo ''sent''] else []), Inr ()))"

definition send_targets ::
  "os_env \<Rightarrow> stage_env \<Rightarrow> remote_host \<Rightarrow> targets \<Rightarrow> event list \<times> (error + unit)" where
  "send_targets e se h t =
     (if targets_truthy t \<and> \<not> is_Undetermined t then send_and_log e se h (PSeq (targets_items t))
      else ([], Inr ()))"

fun to_host_accepted :: "pyval \<Rightarrow> bool" where
  "to_host_accepted (PStr s) = True"
| "to_host_accepted (PSeq xs) = list_all is_str xs"
| "to_host_accepted v = False"

definition send_to_host_option ::
  "os_env \<Rightarrow> stage_env \<Rightarrow> remote_host \<Rightarrow> pyval option \<Rightarrow> event list \<times> (error + unit)" where
  "send_to_host_option e se h to_host =
     (case to_host of
        None \<Rightarrow> ([], Inr ())
      | Some v \<Rightarrow>
          (if \<not> to_host_accepted v then
             ([], Inl (ValueError ''Parameter to_host accepts a list of paths (strings).''))
           else send_and_log e se h v))"

definition stage_task ::
  "os_env \<Rightarrow> stage_env \<Rightarrow> remote_host \<Rightarrow> sos_dict \<Rightarrow> event list \<times> (error + unit)" where
  "stage_task e se h task_vars =
     (case send_targets e se h (sd_input task_vars) of
        (ev1, Inl x) \<Rightarrow> (ev1, Inl x)
      | (ev1, Inr u) \<Rightarrow>
          (case send_targets e se h (sd_depends task_vars) of
             (ev2, Inl x) \<Rightarrow> (ev1 @ ev2, Inl x)
           | (ev2, Inr u) \<Rightarrow>
               (case send_to_host_option e se h (rt_to_host (sd_runtime task_vars)) of
                  (ev3, r) \<Rightarrow> (ev1 @ ev2 @ ev3, r))))"

text \<open>The working directory: a named one must resolve on the remote host.\<close>

definition check_workdir :: "os_env \<Rightarrow> remote_host \<Rightarrow> string \<Rightarrow> event list \<times> (error + unit)" where
  "check_workdir e h workdir =
     (if startswith workdir ''#'' then
        (case named_path e workdir (host_alias h) of
           Inl x \<Rightarrow> ([], Inl (ValueError ''Working directory does not exist on remote host''))
         | Inr p \<Rightarrow> ([Log LFile ''Set workdir''], Inr ()))
      else
        ((if isabs workdir then [Log LDebug ''Absolute path used as workdir.''] else [])
         @ [Log LFile ''Set workdir''], Inr ()))"

text \<open>
  \<open>RemoteHost._prepare_task\<close> makes the three tests first and raises where the local
  agent answers \<open>False\<close>; after the tests it stages the files, checks the working
  directory, copies the ceilings into the runtime (formatting the walltime), writes the
  runtime and the status, and uploads the job file.
\<close>

definition remote_prepare_task_body ::
  "os_env \<Rightarrow> stage_env \<Rightarrow> prep_env \<Rightarrow> remote_host \<Rightarrow> host_limits \<Rightarrow> string \<Rightarrow> task_store \<Rightarrow>
   event list \<times> (error + unit) \<times> task_store" where
  "remote_prepare_task_body e se pe h lim task_id store =
     (case store task_id of
        None \<Rightarrow> ([], Inl (ValueError ''Missing task definition''), store)
      | Some tf \<Rightarrow>
          (let task_vars = sd_runtime (tf_params tf) in
           case ceiling_exceeded pe lim task_vars of
             Inl x \<Rightarrow> ([], Inl x, store)
           | Inr (Some msg) \<Rightarrow> ([], Inl (ValueError msg), store)
           | Inr None \<Rightarrow>
               (case stage_task e se h (tf_params tf) of
                  (ev1, Inl x) \<Rightarrow> (ev1, Inl x, store)
                | (ev1, Inr u) \<Rightarrow>
                    (let workdir = (case rt_workdir task_vars of
                                      Some w \<Rightarrow> w
                                    | None \<Rightarrow> cwd_named pe)
                     in case check_workdir e h workdir of
                          (ev2, Inl x) \<Rightarrow> (ev1 @ ev2, Inl x, store)
                        | (ev2, Inr u) \<Rightarrow>
                            (case format_max_walltime pe lim of
                               Inl x \<Rightarrow> (ev1 @ ev2, Inl x, store)
                             | Inr formatted \<Rightarrow>
                                 (let runtime = new_runtime lim formatted task_vars workdir
                                                  (Some task_id) True;
                                      store1 = store(task_id \<mapsto>
                                        tf\<lparr>tf_runtime := Some runtime, tf_status := ''pending''\<rparr>);
                                      ev3 = ev1 @ ev2 @ [Call (SendJobCmd task_id)]
                                  in if send_job_ok pe then (ev3, Inr (), store1)
                                     else (ev3, Inl (RuntimeError ''Failed to copy job''),
                                           store1)))))))"

text \<open>The public \<open>RemoteHost.prepare_task\<close> catches every exception, logs it, and answers
  \<open>False\<close>.\<close>

definition remote_prepare_task ::
  "os_env \<Rightarrow> stage_env \<Rightarrow> prep_env \<Rightarrow> remote_host \<Rightarrow> host_limits \<Rightarrow> string \<Rightarrow> task_store \<Rightarrow>
   event list \<times> bool \<times> task_store" where
  "remote_prepare_task e se pe h lim task_id store =
     (case remote_prepare_task_body e se pe h lim task_id store of
        (ev, Inr u, store1) \<Rightarrow> (ev, True, store1)
      | (ev, Inl x, store1) \<Rightarrow> (ev @ [Log LError ''error''], False, store1))"

text \<open>A request is over a ceiling when one of the three tests finds it so.\<close>

definition over_ceiling :: "prep_env \<Rightarrow> host_limits \<Rightarrow> task_runtime \<Rightarrow> bool" where
  "over_ceiling pe lim rt =
     (exceeds_mem lim rt \<or> exceeds_cores lim rt \<or> exceeds_walltime pe lim rt = Inr True)"

section \<open>The tunneled socket: \<open>connect_to_server\<close>\<close>

text \<open>
  A poll of a socket for 1000 ms either times out or delivers a reply, here already
  decoded. The network is a parameter: \<open>net i\<close> is the outcome of the \<open>i\<close>-th poll the
  agent makes. The state of the agent is its cached socket, the number of polls made
  and of sockets created so far (a new socket is named by the latter), and the trace of
  what it did.
\<close>

datatype poll_result = Timeout | Reply string

datatype conn_event =
    SendAlive nat
  | OpenTunnel nat
  | CloseSocket nat
  | StartServer
  | Waiting nat
  | Sleep
  | LogFailed

record tunnel_state =
  remote_socket :: "nat option"
  polls :: nat
  sockets :: nat
  trace :: "conn_event list"

text \<open>\<^verbatim>\<open>rsock.send(encode_msg('alive'))\<close> followed by \<^verbatim>\<open>rsock.poll(1000, zmq.POLLIN)\<close>.\<close>

definition send_alive_and_poll ::
  "(nat \<Rightarrow> poll_result) \<Rightarrow> tunnel_state \<Rightarrow> nat \<Rightarrow> poll_result \<times> tunnel_state" where
  "send_alive_and_poll net st rsock =
     (net (polls st), st\<lparr>polls := Suc (polls st), trace := trace st @ [SendAlive rsock]\<rparr>)"

definition test_tunneled_socket ::
  "(nat \<Rightarrow> poll_result) \<Rightarrow> tunnel_state \<Rightarrow> nat option \<Rightarrow> (error + bool) \<times> tunnel_state" where
  "test_tunneled_socket net st rsock =
     (case rsock of
        None \<Rightarrow> (Inr False, st)
      | Some sock \<Rightarrow>
          (case send_alive_and_poll net st sock of
             (Reply ret, st1) \<Rightarrow> (if ret = ''yes'' then (Inr True, st1) else (Inl AssertionError, st1))
           | (Timeout, st1) \<Rightarrow> (Inr False, st1)))"

definition create_tunneled_socket ::
  "(nat \<Rightarrow> poll_result) \<Rightarrow> tunnel_state \<Rightarrow> (error + nat option) \<times> tunnel_state" where
  "create_tunneled_socket net st =
     (let rsock = sockets st;
          st0 = st\<lparr>sockets := Suc rsock, trace := trace st @ [OpenTunnel rsock]\<rparr>
      in case send_alive_and_poll net st0 rsock of
           (Reply ret, st1) \<Rightarrow>
             (if ret = ''yes'' then (Inr (Some rsock), st1) else (Inl AssertionError, st1))
         | (Timeout, st1) \<Rightarrow> (Inr None, st1\<lparr>trace := trace st1 @ [CloseSocket rsock]\<rparr>))"

text \<open>The loop \<^verbatim>\<open>while True\<close> of \<open>connect_to_server\<close>, from the value of \<open>attempts\<close>.\<close>

function connect_loop ::
  "(nat \<Rightarrow> poll_result) \<Rightarrow> nat \<Rightarrow> tunnel_state \<Rightarrow> (error + nat option) \<times> tunnel_state" where
  "connect_loop net attempts st =
     (case create_tunneled_socket net (st\<lparr>trace := trace st @ [Waiting attempts]\<rparr>) of
        (Inl x, st1) \<Rightarrow> (Inl x, st1)
      | (Inr (Some rsock), st1) \<Rightarrow> (Inr (Some rsock), st1\<lparr>remote_socket := Some rsock\<rparr>)
      | (Inr None, st1) \<Rightarrow>
          (if attempts < 5 then connect_loop net (attempts + 1) (st1\<lparr>trace := trace st1 @ [Sleep]\<rparr>)
           else (Inl (RuntimeError ''Failed to start a remote server''),
                 st1\<lparr>trace := trace st1 @ [LogFailed]\<rparr>)))"
  by pat_completeness auto
termination
  by (relation "measure (\<lambda>(net, attempts, st). 5 - attempts)") auto

declare connect_loop.simps [simp del]

definition connect_to_server ::
  "(nat \<Rightarrow> poll_result) \<Rightarrow> tunnel_state \<Rightarrow> (error + nat option) \<times> tunnel_state" where
  "connect_to_server net st =
     (case test_tunneled_socket net st (remote_socket st) of
        (Inl x, st1) \<Rightarrow> (Inl x, st1)
      | (Inr True, st1) \<Rightarrow> (Inr (remote_socket st1), st1)
      | (Inr False, st1) \<Rightarrow> connect_loop net 0 (st1\<lparr>trace := trace st1 @ [StartServer]\<rparr>))"

text \<open>The state after the cached socket, if there is one, has been probed.\<close>

definition after_probe :: "tunnel_state \<Rightarrow> tunnel_state" where
  "after_probe st =
     (case remote_socket st of
        None \<Rightarrow> st
      | Some sock \<Rightarrow> st\<lparr>polls := Suc (polls st), trace := trace st @ [SendAlive sock]\<rparr>)"

section \<open>The registry of host agents: \<open>Host\<close>\<close>

text \<open>
  Agents are objects: the class attribute \<open>host_instances\<close> is a dictionary, here an
  association list, from an alias to a reference, and the store \<open>objects\<close> maps a
  reference to the agent it denotes. References are
  handed out in order, so that \<open>next_obj\<close> is the reference of the next object created.
  An agent carries the attributes \<open>_task_engine\<close> and \<open>_workflow_engine\<close>: \<open>None\<close> when the
  attribute is not set, \<open>Some None\<close> when it is set to Python's \<open>None\<close>. Of a task engine
  the registry reads the flag \<open>_is_stopped\<close> and \<open>is_alive()\<close>.
\<close>

record engine =
  e_is_stopped :: bool
  e_is_alive :: bool

record agent =
  a_local :: bool
  a_alias :: string
  a_task_engine :: "engine option option"
  a_workflow_engine :: "unit option option"

record registry =
  host_instances :: "(string \<times> nat) list"
  objects :: "nat \<rightharpoonup> agent"
  next_obj :: nat

text \<open>What \<open>Host._get_config\<close> leaves in \<open>self.alias\<close> and \<open>self.config\<close>, as far as
  \<open>_get_host_agent\<close> reads it.\<close>

record host_cfg =
  cfg_alias :: string
  cfg_address :: string
  cfg_queue_type :: "string option"

text \<open>
  The collaborators are parameters: the resolver \<open>_get_config\<close> (which may raise), the
  outcome of the connection test of a new \<open>RemoteHost\<close>, the plugin registry (whether a
  task engine and a workflow engine of the given name are found), and the state of a
  task engine that has just been constructed.
\<close>

record registry_env =
  get_config :: "string \<Rightarrow> error + host_cfg"
  connection_ok :: "host_cfg \<Rightarrow> bool"
  load_engines :: "string \<Rightarrow> bool \<times> bool"
  new_engine :: engine

text \<open>A \<open>Host\<close> object: the agent it refers to, and its own \<open>_task_engine\<close> attribute.\<close>

record host =
  h_alias :: string
  h_host_agent :: nat
  h_task_engine :: "engine option option"

text \<open>\<^verbatim>\<open>s.strip()\<close> removes the characters for which \<^verbatim>\<open>str.isspace()\<close> holds. A character is
  a code point below 256 here, of which these are U+0009 to U+000D, U+001C to U+0020,
  U+0085 and U+00A0.\<close>

definition is_space :: "char \<Rightarrow> bool" where
  "is_space c =
     (c \<in> set [CHR 0x09, CHR 0x0A, CHR 0x0B, CHR 0x0C, CHR 0x0D, CHR 0x1C, CHR 0x1D, CHR 0x1E,
               CHR 0x1F, CHR 0x20, CHR 0x85, CHR 0xA0])"

definition strip :: "string \<Rightarrow> string" where
  "strip s = rev (dropWhile is_space (rev (dropWhile is_space s)))"

definition engine_type_of :: "host_cfg \<Rightarrow> string" where
  "engine_type_of cfg = (case cfg_queue_type cfg of None \<Rightarrow> ''process'' | Some q \<Rightarrow> strip q)"

text \<open>\<open>_get_task_and_workflow_engine\<close>: the built-in pair for \<open>process\<close>, the plugins
  otherwise, and an error when neither plugin is found.\<close>

definition get_task_and_workflow_engine ::
  "registry_env \<Rightarrow> string \<Rightarrow> error + (engine option \<times> unit option)" where
  "get_task_and_workflow_engine env engine_type =
     (if engine_type = ''process'' then Inr (Some (new_engine env), Some ())
      else
        (case load_engines env engine_type of
           (task_found, workflow_found) \<Rightarrow>
             (if \<not> task_found \<and> \<not> workflow_found then
                Inl (ValueError ''Failed to load task engine'')
              else Inr ((if task_found then Some (new_engine env) else None),
                        (if workflow_found then Some () else None)))))"

text \<open>
  The test \<^verbatim>\<open>alias not in host_instances or (hasattr(agent, "_task_engine") and
  agent._task_engine._is_stopped)\<close>: reading \<open>_is_stopped\<close> of \<open>None\<close> raises.
\<close>

definition needs_new_agent :: "registry \<Rightarrow> string \<Rightarrow> error + bool" where
  "needs_new_agent reg al =
     (case map_of (host_instances reg) al of
        None \<Rightarrow> Inr True
      | Some r \<Rightarrow>
          (case objects reg r of
             None \<Rightarrow> Inl (KeyError al)
           | Some a \<Rightarrow>
               (case a_task_engine a of
                  None \<Rightarrow> Inr False
                | Some None \<Rightarrow> Inl (AttributeError ''_is_stopped'')
                | Some (Some en) \<Rightarrow> Inr (e_is_stopped en))))"

text \<open>The construction of the agent and of its engines. A \<open>RemoteHost\<close> whose connection
  test fails raises before it is stored; an agent whose engines cannot be loaded stays
  in the registry without them. The options \<open>shared\<close> and \<open>path_map\<close> that the resolver
  has put in the configuration are taken to be well formed.\<close>

definition create_agent ::
  "registry_env \<Rightarrow> host_cfg \<Rightarrow> bool \<Rightarrow> registry \<Rightarrow> (error + unit) \<times> registry" where
  "create_agent env cfg test_connection reg =
     (if cfg_address cfg \<noteq> ''localhost'' \<and> test_connection \<and> \<not> connection_ok env cfg then
        (Inl (RuntimeError ''Failed to connect''), reg)
      else
        (let r = next_obj reg;
             a = \<lparr>a_local = (cfg_address cfg = ''localhost''), a_alias = cfg_alias cfg,
                  a_task_engine = None, a_workflow_engine = None\<rparr>;
             reg1 = reg\<lparr>host_instances := AList.update (cfg_alias cfg) r (host_instances reg),
                        objects := (objects reg)(r \<mapsto> a), next_obj := Suc r\<rparr>
         in case get_task_and_workflow_engine env (engine_type_of cfg) of
              Inl x \<Rightarrow> (Inl x, reg1)
            | Inr (task_engine, workflow_engine) \<Rightarrow>
                (Inr (),
                 reg1\<lparr>objects := (objects reg1)(r \<mapsto>
                   a\<lparr>a_task_engine := Some task_engine,
                     a_workflow_engine := Some workflow_engine\<rparr>)\<rparr>)))"

text \<open>The end of \<open>_get_host_agent\<close>: the \<open>Host\<close> object takes the cached agent and its
  engines, and starts a task engine that is not alive when asked to.\<close>

definition attach_agent ::
  "host_cfg \<Rightarrow> bool \<Rightarrow> registry \<Rightarrow> (error + host) \<times> registry" where
  "attach_agent cfg start_engine reg =
     (case map_of (host_instances reg) (cfg_alias cfg) of
        None \<Rightarrow> (Inl (KeyError (cfg_alias cfg)), reg)
      | Some r \<Rightarrow>
          (case objects reg r of
             None \<Rightarrow> (Inl (KeyError (cfg_alias cfg)), reg)
           | Some a \<Rightarrow>
               (let h = \<lparr>h_alias = cfg_alias cfg, h_host_agent = r,
                         h_task_engine = a_task_engine a\<rparr>
                in if start_engine then
                     (case a_task_engine a of
                        None \<Rightarrow> (Inl (AttributeError ''_task_engine''), reg)
                      | Some None \<Rightarrow> (Inr h, reg)
                      | Some (Some en) \<Rightarrow>
                          (if \<not> e_is_alive en then
                             (Inr (h\<lparr>h_task_engine := Some (Some (en\<lparr>e_is_alive := True\<rparr>))\<rparr>),
                              reg\<lparr>objects := (objects reg)(r \<mapsto>
                                a\<lparr>a_task_engine := Some (Some (en\<lparr>e_is_alive := True\<rparr>))\<rparr>)\<rparr>)
                           else (Inr h, reg)))
                   else (Inr h, reg))))"

definition get_host_agent ::
  "registry_env \<Rightarrow> host_cfg \<Rightarrow> bool \<Rightarrow> bool \<Rightarrow> registry \<Rightarrow> (error + host) \<times> registry" where
  "get_host_agent env cfg start_engine test_connection reg =
     (case needs_new_agent reg (cfg_alias cfg) of
        Inl x \<Rightarrow> (Inl x, reg)
      | Inr True \<Rightarrow>
          (case create_agent env cfg test_connection reg of
             (Inl x, reg1) \<Rightarrow> (Inl x, reg1)
           | (Inr u, reg1) \<Rightarrow> attach_agent cfg start_engine reg1)
      | Inr False \<Rightarrow> attach_agent cfg start_engine reg)"

text \<open>\<open>Host(alias, start_engine, test_connection)\<close>, a lookup.\<close>

definition host_lookup ::
  "registry_env \<Rightarrow> string \<Rightarrow> bool \<Rightarrow> bool \<Rightarrow> registry \<Rightarrow> (error + host) \<times> registry" where
  "host_lookup env al start_engine test_connection reg =
     (case get_config env al of
        Inl x \<Rightarrow> (Inl x, reg)
      | Inr cfg \<Rightarrow> get_host_agent env cfg start_engine test_connection reg)"

text \<open>\<open>Host.reset\<close>: the task engine of every cached agent is deleted, and the registry
  is emptied.\<close>

definition reset :: "registry \<Rightarrow> registry" where
  "reset reg =
     reg\<lparr>objects := (\<lambda>r. case objects reg r of
                          None \<Rightarrow> None
                        | Some a \<Rightarrow>
                            (if r \<in> snd ` set (host_instances reg) then Some (a\<lparr>a_task_engine := None\<rparr>)
                             else Some a)),
         host_instances := []\<rparr>"

text \<open>
  A registry is well formed when every cached reference denotes an object that has
  been created. A new agent can be created when its connection test, if one is made,
  succeeds and an engine of its type can be loaded. A cached agent is healthy when it
  has a task engine that has not stopped.
\<close>

definition wf_registry :: "registry \<Rightarrow> bool" where
  "wf_registry reg =
     (\<forall>(al, r) \<in> set (host_instances reg). r < next_obj reg \<and> objects reg r \<noteq> None)"

definition can_create :: "registry_env \<Rightarrow> host_cfg \<Rightarrow> bool \<Rightarrow> bool" where
  "can_create env cfg test_connection =
     ((cfg_address cfg = ''localhost'' \<or> \<not> test_connection \<or> connection_ok env cfg) \<and>
      (engine_type_of cfg = ''process'' \<or> fst (load_engines env (engine_type_of cfg)) \<or>
       snd (load_engines env (engine_type_of cfg))))"

definition healthy :: "registry \<Rightarrow> nat \<Rightarrow> bool" where
  "healthy reg r =
     (case objects reg r of
        None \<Rightarrow> False
      | Some a \<Rightarrow>
          (case a_task_engine a of
             Some (Some en) \<Rightarrow> \<not> e_is_stopped en
           | _ \<Rightarrow> False))"

definition stopped :: "registry \<Rightarrow> nat \<Rightarrow> bool" where
  "stopped reg r =
     (case objects reg r of
        None \<Rightarrow> False
      | Some a \<Rightarrow>
          (case a_task_engine a of
             Some (Some en) \<Rightarrow> e_is_stopped en
           | _ \<Rightarrow> False))"

section \<open>Example configurations\<close>

text \<open>
  A POSIX file system with the directories \<open>/a\<close>, \<open>/a/b\<close> and \<open>/home/u\<close> (a directory
  is the same file with or without a trailing separator), the current directory
  \<open>/home/u\<close>, and paths that are already absolute and normalised, on which
  \<open>abspath\<close> and \<open>expanduser\<close> change nothing.
\<close>

definition fs_ab :: "string \<Rightarrow> nat option" where
  "fs_ab p =
     (if p = ''/a'' \<or> p = ''/a/'' then Some 1
      else if p = ''/a/b'' \<or> p = ''/a/b/'' then Some 2
      else if p = ''/home/u'' \<or> p = ''/home/u/'' then Some 3
      else None)"

definition env_ab :: os_env where
  "env_ab =
     \<lparr>getcwd = ''/home/u'', abspath_expanduser = (\<lambda>p. p), stat = fs_ab,
      named_path = (\<lambda>s host. Inl (ValueError s))\<rparr>"

definition host_ab :: remote_host where
  "host_ab =
     \<lparr>host_alias = ''remote'', address = ''remote.example.org'', port = 22,
      shared_dirs = [], path_map = [(''/a'', ''/x''), (''/a/b'', ''/y'')]\<rparr>"

text \<open>The same path map with a third local prefix, \<open>/zz\<close>, that does not exist on the
  local host.\<close>

definition host_stale :: remote_host where
  "host_stale =
     \<lparr>host_alias = ''remote'', address = ''remote.example.org'', port = 22,
      shared_dirs = [],
      path_map = [(''/a'', ''/x''), (''/a/b'', ''/y''), (''/zz'', ''/q'')]\<rparr>"

definition host_shared_a :: remote_host where
  "host_shared_a =
     \<lparr>host_alias = ''remote'', address = ''remote.example.org'', port = 22,
      shared_dirs = [''/a''], path_map = [(''/a/b'', ''/y'')]\<rparr>"

text \<open>
  Two remote prefixes of which one extends the other: the home directory of the remote
  host, and a project directory inside it that is kept elsewhere locally.
\<close>

definition host_proj :: remote_host where
  "host_proj =
     \<lparr>host_alias = ''remote'', address = ''remote.example.org'', port = 22,
      shared_dirs = [],
      path_map = [(''/Users/bo/'', ''/home/bo/''), (''/p/'', ''/home/bo/proj/'')]\<rparr>"

text \<open>
  A relative path: the current directory is \<open>/a/w\<close>, which holds \<open>f.txt\<close>, so that
  \<open>abspath\<close> turns \<open>f.txt\<close> into \<open>/a/w/f.txt\<close>; and \<open>/a/\<close> is mapped to \<open>/x/\<close>.
\<close>

definition fs_aw :: "string \<Rightarrow> nat option" where
  "fs_aw p =
     (if p = ''/a'' \<or> p = ''/a/'' then Some 1
      else if p = ''/a/w'' \<or> p = ''/a/w/'' then Some 2
      else if p = ''/a/w/f.txt'' then Some 3
      else None)"

definition env_aw :: os_env where
  "env_aw =
     \<lparr>getcwd = ''/a/w'',
      abspath_expanduser = (\<lambda>p. if p = ''f.txt'' then ''/a/w/f.txt'' else p),
      stat = fs_aw, named_path = (\<lambda>s host. Inl (ValueError s))\<rparr>"

definition host_a :: remote_host where
  "host_a =
     \<lparr>host_alias = ''remote'', address = ''remote.example.org'', port = 22,
      shared_dirs = [], path_map = [(''/a/'', ''/x/'')]\<rparr>"

text \<open>A file of \<open>/a/b\<close> whose name holds a backslash, an ordinary character on POSIX.\<close>

definition name_with_backslash :: string where
  "name_with_backslash = ''/a/b/c'' @ [backslash] @ ''d''"

text \<open>
  Collaborators of the staging for the examples: a glob without wildcards matches the
  path itself, there are no symbolic links, every transfer command exits with 0, every
  directory exists. The examples stage at most one file, which \<open>sorted\<close> leaves as it is.
\<close>

definition stage_ok :: stage_env where
  "stage_ok =
     \<lparr>path_glob = (\<lambda>p. [p]), find_symbolic_links = (\<lambda>p. []), subprocess_call = (\<lambda>c. 0),
      isdir = (\<lambda>d. True), makedirs = (\<lambda>d. None), py_sorted = (\<lambda>ks. ks),
      debug_task = False\<rparr>"

text \<open>
  A task run in the directory \<open>/a/w\<close> of the local host, which declares the output
  \<open>f.txt\<close> and has one subtask \<open>t1\<close> with the output \<open>g.txt\<close>; the same task with outputs
  that are not determined before it runs; and the result that comes back from the
  remote host, with the paths of the remote host.
\<close>

definition runtime_none :: task_runtime where
  "runtime_none =
     \<lparr>rt_verbosity = None, rt_sig_mode = None, rt_run_mode = None, rt_walltime = None,
      rt_cores = None, rt_mem = None, rt_workdir = None, rt_to_host = None,
      rt_from_host = None\<rparr>"

definition job_with_output :: "targets \<Rightarrow> sos_dict" where
  "job_with_output out =
     \<lparr>sd_input = Targets False [], sd_depends = Targets False [], sd_output = Some out,
      sd_runtime = runtime_none\<rparr>"

definition result_remote :: task_result where
  "result_remote =
     \<lparr>r_ret_code = Some 0, r_succ = None, r_output = Some (PSeq [PStr ''/x/w/f.txt'']),
      r_subtasks = Some [(''t1'', \<lparr>sub_ret_code = Some 0,
                                  sub_output = Some (PSeq [PStr ''/x/w/g.txt''])\<rparr>)],
      r_task = None, r_exception = None\<rparr>"

definition tf_declared :: task_file where
  "tf_declared =
     \<lparr>tf_params = job_with_output (Targets False [PStr ''f.txt'']),
      tf_task_stack = [(''t1'', job_with_output (Targets False [PStr ''g.txt'']))],
      tf_runtime = None, tf_status = ''completed'', tf_result = Some result_remote\<rparr>"

definition tf_undetermined :: task_file where
  "tf_undetermined =
     \<lparr>tf_params = job_with_output (Targets True []),
      tf_task_stack = [(''t1'', job_with_output (Targets True []))],
      tf_runtime = None, tf_status = ''completed'', tf_result = Some result_remote\<rparr>"

definition result_env_ok :: result_env where
  "result_env_ok =
     \<lparr>readonly_files = [], scp_first = 0, scp_second = 0, env_verbosity = 2,
      env_run_mode = ''run''\<rparr>"

text \<open>
  A host that allows 1 GB of memory and one hour, the same host with a walltime that is
  not a time, and the task \<open>t0\<close> that requests 2 GB. The collaborators \<open>expand_time\<close> and
  \<open>format_HHMMSS\<close> accept \<open>01:00:00\<close> and reject every other value.
\<close>

definition limits_1GB :: host_limits where
  "limits_1GB =
     \<lparr>max_mem = KeyValue 1000000000, max_cores = KeyAbsent,
      max_walltime = KeyValue ''01:00:00''\<rparr>"

definition limits_bad_walltime :: host_limits where
  "limits_bad_walltime =
     \<lparr>max_mem = KeyValue 1000000000, max_cores = KeyAbsent, max_walltime = KeyValue ''abc''\<rparr>"

definition prep_env_ok :: prep_env where
  "prep_env_ok =
     \<lparr>expand_time = (\<lambda>t. if t = ''01:00:00'' then Inr 3600
                          else Inl (ValueError ''Unacceptable time'')),
      format_HHMMSS = (\<lambda>t. if t = Some ''01:00:00'' then Inr ''01:00:00''
                            else Inl (ValueError ''Invalid time'')),
      cwd_named = ''/home/u'', send_job_ok = True\<rparr>"

definition tf_2GB :: task_file where
  "tf_2GB =
     \<lparr>tf_params =
        \<lparr>sd_input = Targets False [], sd_depends = Targets False [], sd_output = None,
         sd_runtime = runtime_none\<lparr>rt_mem := Some 2000000000\<rparr>\<rparr>,
      tf_task_stack = [], tf_runtime = None, tf_status = ''new'', tf_result = None\<rparr>"

definition store_2GB :: task_store where
  "store_2GB = (\<lambda>task_id. if task_id = ''t0'' then Some tf_2GB else None)"

text \<open>An agent without a socket, and an agent that has cached the socket \<open>0\<close>.\<close>

definition st_fresh :: tunnel_state where
  "st_fresh = \<lparr>remote_socket = None, polls = 0, sockets = 0, trace = []\<rparr>"

definition st_cached :: tunnel_state where
  "st_cached = \<lparr>remote_socket = Some 0, polls = 0, sockets = 1, trace = []\<rparr>"

text \<open>A helper that answers every poll with \<open>no\<close>, one that answers from the fourth
  poll on, and one that never answers.\<close>

definition net_no :: "nat \<Rightarrow> poll_result" where
  "net_no i = Reply ''no''"

definition net_late :: "nat \<Rightarrow> poll_result" where
  "net_late i = (if i < 3 then Timeout else Reply ''yes'')"

definition net_silent :: "nat \<Rightarrow> poll_result" where
  "net_silent i = Timeout"

text \<open>
  A configuration with the local host and one remote host that passes its connection
  test, no plugins, task engines that are constructed not stopped and not alive, and
  the empty registry.
\<close>

definition registry_env_ok :: registry_env where
  "registry_env_ok =
     \<lparr>get_config = (\<lambda>al.
        if al = [] \<or> al = ''localhost'' then
          Inr \<lparr>cfg_alias = ''localhost'', cfg_address = ''localhost'', cfg_queue_type = None\<rparr>
        else if al = ''remote'' then
          Inr \<lparr>cfg_alias = ''remote'', cfg_address = ''remote.example.org'', cfg_queue_type = None\<rparr>
        else Inl (ValueError ''Undefined remote host'')),
      connection_ok = (\<lambda>cfg. True), load_engines = (\<lambda>name. (False, False)),
      new_engine = \<lparr>e_is_stopped = False, e_is_alive = False\<rparr>\<rparr>"

text \<open>
  The same configuration where \<open>remote\<close> has the queue type \<open>wf\<close>, for which the plugin
  registry holds a workflow engine and no task engine.
\<close>

definition registry_env_wf :: registry_env where
  "registry_env_wf =
     \<lparr>get_config = (\<lambda>al.
        if al = ''remote'' then
          Inr \<lparr>cfg_alias = ''remote'', cfg_address = ''remote.example.org'',
               cfg_queue_type = Some ''wf''\<rparr>
        else Inl (ValueError ''Undefined remote host'')),
      connection_ok = (\<lambda>cfg. True),
      load_engines = (\<lambda>name. if name = ''wf'' then (False, True) else (False, False)),
      new_engine = \<lparr>e_is_stopped = False, e_is_alive = False\<rparr>\<rparr>"

definition registry_wf_only :: registry where
  "registry_wf_only =
     \<lparr>host_instances = [(''remote'', 0)],
      objects = [0 \<mapsto> \<lparr>a_local = False, a_alias = ''remote'', a_task_engine = Some None,
                        a_workflow_engine = Some (Some ())\<rparr>],
      next_obj = 1\<rparr>"

definition registry_empty :: registry where
  "registry_empty = \<lparr>host_instances = [], objects = Map.empty, next_obj = 0\<rparr>"

text \<open>The registry in which the agent of \<open>remote\<close> is cached with a given task engine.\<close>

definition cfg_remote :: host_cfg where
  "cfg_remote =
     \<lparr>cfg_alias = ''remote'', cfg_address = ''remote.example.org'', cfg_queue_type = None\<rparr>"

definition registry_with :: "engine \<Rightarrow> registry" where
  "registry_with en =
     \<lparr>host_instances = [(''remote'', 0)],
      objects = [0 \<mapsto> \<lparr>a_local = False, a_alias = ''remote'', a_task_engine = Some (Some en),
                        a_workflow_engine = Some (Some ())\<rparr>],
      next_obj = 1\<rparr>"

definition engine_running :: engine where
  "engine_running = \<lparr>e_is_stopped = False, e_is_alive = True\<rparr>"

definition engine_stopped :: engine where
  "engine_stopped = \<lparr>e_is_stopped = True, e_is_alive = False\<rparr>"

section \<open>Facts about the string functions\<close>








lemma startswith_append:
  "v = sep @ drop (length sep) v" if "startswith v sep"
  using that by (metis append_take_drop_id startswith_def)




section \<open>Parsing the path map\<close>









section \<open>The shared check\<close>

lemma is_shared_loop_iff:
  "is_shared_loop fp mdirs sdirs =
     ((\<exists>sdir \<in> set sdirs. startswith fp sdir) \<and> \<not> (\<exists>mdir \<in> set mdirs. startswith fp mdir))"
  by (induction sdirs) (auto simp: list_ex_iff)

text \<open>
  Claim C4. \<open>is_shared p\<close> is true exactly when the absolute, user-expanded form of \<open>p\<close>
  starts with some entry of \<open>shared\<close> and with no \<open>local_prefix\<close> key of the path map.
  With \<open>shared = [/a]\<close> and \<open>path_map = [/a/b -> /y]\<close>, on paths that are already
  absolute, \<open>/a/b/foo\<close> is not shared and \<open>/a/foo\<close> is.
\<close>

theorem is_shared_iff:
  "(is_shared e h p \<longleftrightarrow>
      (\<exists>sdir \<in> set (shared_dirs h). startswith (abspath_expanduser e p) sdir) \<and>
      \<not> (\<exists>mdir \<in> set (map fst (path_map h)). startswith (abspath_expanduser e p) mdir)) \<and>
   (shared_dirs h = [''/a''] \<and> path_map h = [(''/a/b'', ''/y'')] \<and>
    abspath_expanduser e ''/a/b/foo'' = ''/a/b/foo'' \<and>
    abspath_expanduser e ''/a/foo'' = ''/a/foo'' \<longrightarrow>
      \<not> is_shared e h ''/a/b/foo'' \<and> is_shared e h ''/a/foo'')"
  by (simp add: is_shared_def is_shared_loop_iff startswith_def)

theorem is_shared_iff_witness:
  "\<not> is_shared env_ab host_shared_a ''/a/b/foo'' \<and> is_shared env_ab host_shared_a ''/a/foo''"
proof -
  have "shared_dirs host_shared_a = [''/a''] \<and> path_map host_shared_a = [(''/a/b'', ''/y'')] \<and>
    abspath_expanduser env_ab ''/a/b/foo'' = ''/a/b/foo'' \<and>
    abspath_expanduser env_ab ''/a/foo'' = ''/a/foo''"
    by (simp add: host_shared_a_def env_ab_def)
  with is_shared_iff [of env_ab host_shared_a] show ?thesis by blast
qed

section \<open>The longest matching key\<close>

lemma max_len_from_props:
  "max_len_from b ks \<in> set (b # ks) \<and> (\<forall>k \<in> set (b # ks). length k \<le> length (max_len_from b ks))"
proof (induction ks arbitrary: b)
  case Nil
  show ?case by simp
next
  case (Cons k ks)
  let ?b = "if length b < length k then k else b"
  from Cons [of ?b] have m: "max_len_from ?b ks \<in> set (?b # ks)"
    and le: "\<forall>x \<in> set (?b # ks). length x \<le> length (max_len_from ?b ks)" by blast+
  from le have "length ?b \<le> length (max_len_from ?b ks)" by simp
  then have "length b \<le> length (max_len_from ?b ks)" "length k \<le> length (max_len_from ?b ks)"
    by (simp_all split: if_splits)
  with m le show ?case by (auto split: if_splits)
qed

lemma max_len_props:
  assumes "ms \<noteq> []"
  shows "\<exists>k. max_len ms = Inr k \<and> k \<in> set ms \<and> (\<forall>k' \<in> set ms. length k' \<le> length k)"
proof -
  from assms obtain b ks where ms: "ms = b # ks" by (cases ms) auto
  with max_len_from_props [of b ks] show ?thesis by simp
qed

lemma matched_keys_filter:
  "matched_keys e dest ks = Inr ms \<Longrightarrow> ms = filter (\<lambda>k. same_inode e (take (length k) dest) k) ks"
proof (induction ks arbitrary: ms)
  case Nil
  then show ?case by simp
next
  case (Cons k ks)
  from Cons.prems obtain same ms' where
    s: "exists_and_samefile e (take (length k) dest) k = Inr same"
    and m: "matched_keys e dest ks = Inr ms'"
    and ms: "ms = (if same then k # ms' else ms')"
    by (auto split: sum.splits)
  from s have "same = same_inode e (take (length k) dest) k"
    by (auto simp: exists_and_samefile_def path_exists_def samefile_def same_inode_def
        split: if_splits option.splits)
  with Cons.IH [OF m] ms show ?case by simp
qed

lemma path_map_at_key:
  "k \<in> set (map fst pm) \<Longrightarrow> \<exists>r. map_of pm k = Some r \<and> path_map_at pm k = Inr r"
  by (induction pm) (auto simp: path_map_at_def)

lemma replace_backslash_free: "backslash \<notin> set (replace_backslash s)"
  by (auto simp: replace_backslash_def backslash_def)

lemma map_dest_longest:
  assumes "matched_keys e dest (map fst pm) = Inr ms" and "ms \<noteq> []"
  shows "\<exists>k r. k \<in> set ms \<and> (\<forall>k' \<in> set ms. length k' \<le> length k) \<and>
           map_of pm k = Some r \<and>
           map_dest e pm dest = Inr (replace_backslash (r @ drop (length k) dest))"
proof -
  from max_len_props [OF assms(2)] obtain k where
    k: "max_len ms = Inr k" "k \<in> set ms" "\<forall>k' \<in> set ms. length k' \<le> length k" by blast
  from matched_keys_filter [OF assms(1)] k(2) have "k \<in> set (map fst pm)" by simp
  from path_map_at_key [OF this] obtain r where
    r: "map_of pm k = Some r" "path_map_at pm k = Inr r" by blast
  have "map_dest e pm dest = Inr (replace_backslash (r @ drop (length k) dest))"
    using assms k(1) r(2) by (simp add: map_dest_def)
  with k r show ?thesis by blast
qed


section \<open>The forward mapping\<close>

lemma map_var_example_deep: "map_var env_ab host_ab (PStr ''/a/b/c.txt'') = Inr (PStr ''/y/c.txt'')"
  by code_simp

lemma map_var_example_shallow: "map_var env_ab host_ab (PStr ''/a/d.txt'') = Inr (PStr ''/x/d.txt'')"
  by code_simp

text \<open>
  \<^verbatim>\<open>os.path.exists(f1) and os.path.samefile(f1, f2)\<close> returns when \<open>f2\<close> exists, and is then
  the identity of the two files. So when the current directory and every key of the
  path map exist, \<open>dest\<close> and the list \<open>matched\<close> are formed without an exception.
\<close>

lemma exists_and_samefile_total:
  "path_exists e f2 \<Longrightarrow> exists_and_samefile e f1 f2 = Inr (same_inode e f1 f2)"
  by (auto simp: exists_and_samefile_def path_exists_def samefile_def same_inode_def
      split: option.splits)

lemma canonical_dest_total:
  assumes "path_exists e (getcwd e)"
  shows "canonical_dest e source =
           Inr (if same_inode e (take (length (getcwd e)) (abspath_expanduser e source)) (getcwd e)
                then getcwd e @ drop (length (getcwd e)) (abspath_expanduser e source)
                else abspath_expanduser e source)"
  using assms by (simp add: canonical_dest_def Let_def exists_and_samefile_total)

lemma matched_keys_total:
  "\<forall>k \<in> set ks. path_exists e k \<Longrightarrow>
   matched_keys e dest ks = Inr (filter (\<lambda>k. same_inode e (take (length k) dest) k) ks)"
  by (induction ks) (simp_all add: exists_and_samefile_total)

text \<open>
  On a host where the current directory and every key of the path map exist: let
  \<open>dest\<close> be the absolute, user-expanded form of a local path that is not a named path
  (with the current directory's spelling), and \<open>ms\<close> the keys \<open>k\<close> such that the leading
  \<open>len(k)\<close> characters of \<open>dest\<close> and \<open>k\<close> are the same file. When \<open>ms\<close> is not empty,
  \<open>_map_var\<close> and \<open>_map_path\<close> take a key \<open>k\<close> of \<open>ms\<close> that no other key of \<open>ms\<close> exceeds
  in length, replace the leading \<open>len(k)\<close> characters of \<open>dest\<close> by the remote prefix of
  \<open>k\<close>, and turn every backslash into \<open>/\<close>.
\<close>

lemma map_var_longest_key:
  assumes named: "\<not> startswith source ''#''"
    and cwd: "path_exists e (getcwd e)"
    and keys: "\<forall>k \<in> set (map fst (path_map h)). path_exists e k"
    and dest: "dest =
       (if same_inode e (take (length (getcwd e)) (abspath_expanduser e source)) (getcwd e)
        then getcwd e @ drop (length (getcwd e)) (abspath_expanduser e source)
        else abspath_expanduser e source)"
    and ms: "ms = filter (\<lambda>k. same_inode e (take (length k) dest) k) (map fst (path_map h))"
    and ne: "ms \<noteq> []"
  shows "\<exists>k r. k \<in> set ms \<and> (\<forall>k' \<in> set ms. length k' \<le> length k) \<and>
           map_of (path_map h) k = Some r \<and>
           map_var e h (PStr source) = Inr (PStr (replace_backslash (r @ drop (length k) dest))) \<and>
           map_path e h (PStr source) =
             Inr [(PStr source, PStr (replace_backslash (r @ drop (length k) dest)))] \<and>
           backslash \<notin> set (replace_backslash (r @ drop (length k) dest))"
proof -
  from canonical_dest_total [OF cwd] dest have c: "canonical_dest e source = Inr dest" by simp
  from matched_keys_total [OF keys] ms
  have m: "matched_keys e dest (map fst (path_map h)) = Inr ms" by simp
  from map_dest_longest [OF m ne] obtain k r where
    k: "k \<in> set ms" "\<forall>k' \<in> set ms. length k' \<le> length k" "map_of (path_map h) k = Some r"
      "map_dest e (path_map h) dest = Inr (replace_backslash (r @ drop (length k) dest))" by blast
  from c k(4) have l: "local_to_remote e (path_map h) source =
      Inr (replace_backslash (r @ drop (length k) dest))"
    by (simp add: local_to_remote_def)
  from named l have 1: "map_var e h (PStr source) =
      Inr (PStr (replace_backslash (r @ drop (length k) dest)))"
    by (simp add: map_var_str_def)
  from named l have 2: "map_path e h (PStr source) =
      Inr [(PStr source, PStr (replace_backslash (r @ drop (length k) dest)))]"
    by simp
  from k 1 2 replace_backslash_free show ?thesis by blast
qed

lemma map_var_longest_key_example:
  "\<exists>k r. k \<in> set [''/a'', ''/a/b''] \<and> length ''/a/b'' \<le> length k \<and>
     map_of (path_map host_ab) k = Some r \<and>
     map_var env_ab host_ab (PStr ''/a/b/c.txt'') =
       Inr (PStr (replace_backslash (r @ drop (length k) ''/a/b/c.txt'')))"
proof -
  have 1: "\<not> startswith ''/a/b/c.txt'' ''#''" by code_simp
  have 2: "path_exists env_ab (getcwd env_ab)" by code_simp
  have 3: "\<forall>k \<in> set (map fst (path_map host_ab)). path_exists env_ab k" by code_simp
  have 4: "''/a/b/c.txt'' =
       (if same_inode env_ab (take (length (getcwd env_ab))
             (abspath_expanduser env_ab ''/a/b/c.txt'')) (getcwd env_ab)
        then getcwd env_ab @ drop (length (getcwd env_ab)) (abspath_expanduser env_ab ''/a/b/c.txt'')
        else abspath_expanduser env_ab ''/a/b/c.txt'')" by code_simp
  have 5: "[''/a'', ''/a/b''] =
       filter (\<lambda>k. same_inode env_ab (take (length k) ''/a/b/c.txt'') k)
         (map fst (path_map host_ab))" by code_simp
  have 6: "[''/a'', ''/a/b''] \<noteq> []" by simp
  from map_var_longest_key [where e = env_ab and h = host_ab and source = "''/a/b/c.txt''"
      and dest = "''/a/b/c.txt''" and ms = "[''/a'', ''/a/b'']", OF 1 2 3 4 5 6]
  obtain k r where "k \<in> set [''/a'', ''/a/b'']"
    "\<forall>k' \<in> set [''/a'', ''/a/b'']. length k' \<le> length k"
    "map_of (path_map host_ab) k = Some r"
    "map_var env_ab host_ab (PStr ''/a/b/c.txt'') =
       Inr (PStr (replace_backslash (r @ drop (length k) ''/a/b/c.txt'')))"
    by (elim exE conjE) (rule that)
  then show ?thesis by (intro exI [of _ k] exI [of _ r] conjI) simp_all
qed

text \<open>
  Claim C2. The local-to-remote mapping chooses the longest of the keys that match the
  leading part of the path by inode identity. It does so when every key of the path
  map exists on the local host (above), and not otherwise: with
  \<open>path_map = [/a -> /x, /a/b -> /y, /zz -> /q]\<close> on a host that has \<open>/a\<close> and \<open>/a/b\<close> and
  has no \<open>/zz\<close>, the path \<open>/a/b/c.txt\<close> matches the two keys \<open>/a\<close> and \<open>/a/b\<close>, of which
  \<open>/a/b\<close> is the longest, and \<open>_map_var\<close> and \<open>_map_path\<close> raise \<open>FileNotFoundError\<close> for
  \<open>/zz\<close> instead of returning \<open>/y/c.txt\<close>. The leading three characters \<open>/a/\<close> of the path
  exist, which is all that the comprehension tests before \<open>os.path.samefile\<close> reads
  the key.
\<close>

theorem map_var_missing_key:
  "path_map host_stale = [(''/a'', ''/x''), (''/a/b'', ''/y''), (''/zz'', ''/q'')] \<and>
   abspath_expanduser env_ab ''/a/b/c.txt'' = ''/a/b/c.txt'' \<and>
   same_inode env_ab (take (length ''/a'') ''/a/b/c.txt'') ''/a'' \<and>
   same_inode env_ab (take (length ''/a/b'') ''/a/b/c.txt'') ''/a/b'' \<and>
   path_exists env_ab (take (length ''/zz'') ''/a/b/c.txt'') \<and>
   \<not> path_exists env_ab ''/zz'' \<and>
   map_var env_ab host_stale (PStr ''/a/b/c.txt'') = Inl (FileNotFoundError ''/zz'') \<and>
   map_path env_ab host_stale (PStr ''/a/b/c.txt'') = Inl (FileNotFoundError ''/zz'')"
  by code_simp

section \<open>The reverse mapping\<close>

text \<open>
  Claim C3. Among the pairs whose remote prefix matches, \<open>_reverse_map_var\<close> takes the
  pair with the longest local prefix (\<^verbatim>\<open>max(matched, key=len)\<close> over the local keys), not
  the pair with the longest matching remote prefix. With \<open>/Users/bo/ -> /home/bo/\<close> and
  \<open>/p/ -> /home/bo/proj/\<close>, both remote prefixes match \<open>/home/bo/proj/x\<close> on a separator
  boundary; the longest match is \<open>/home/bo/proj/\<close>, whose local prefix gives \<open>/p/x\<close>, and
  the code returns \<open>/Users/bo/proj/x\<close>.
\<close>

theorem reverse_map_var_longest_local_key:
  "reverse_match ''/home/bo/proj/x'' ''/home/bo/'' \<and>
   reverse_match ''/home/bo/proj/x'' ''/home/bo/proj/'' \<and>
   reverse_map_var host_proj (PStr ''/home/bo/proj/x'') = Inr (PStr ''/Users/bo/proj/x'')"
  by code_simp


lemma replace_backslash_id: "backslash \<notin> set s \<Longrightarrow> replace_backslash s = s"
  by (induction s) (auto simp: replace_backslash_def)

lemma reverse_matched_only:
  assumes "distinct (map fst pm)" and "map_of pm k = Some r" and "reverse_match dest r"
    and "\<forall>(l, r') \<in> set pm. l \<noteq> k \<longrightarrow> \<not> reverse_match dest r'"
  shows "reverse_matched pm dest = [k]"
  using assms
proof (induction pm)
  case Nil
  then show ?case by simp
next
  case (Cons x pm)
  obtain l r' where x: "x = (l, r')" by (cases x)
  show ?case
  proof (cases "l = k")
    case True
    with Cons.prems(2) x have r: "r' = r" by simp
    from Cons.prems(1) x True have "k \<notin> fst ` set pm" by simp
    then have "\<forall>(l, r') \<in> set pm. l \<noteq> k" by force
    with Cons.prems(4) have "filter (\<lambda>(l, r'). reverse_match dest r') pm = []"
      by (auto simp: filter_empty_conv)
    with x True r Cons.prems(3) show ?thesis by (simp add: reverse_matched_def)
  next
    case False
    with Cons.prems x have "reverse_matched pm dest = [k]"
      by (intro Cons.IH) auto
    moreover from False Cons.prems(4) x have "\<not> reverse_match dest r'" by auto
    ultimately show ?thesis using x by (simp add: reverse_matched_def)
  qed
qed

lemma reverse_match_mapped:
  assumes "startswith p k"
    and "length p = length k \<or> endswith r ''/'' \<or> p ! length k = CHR ''/''"
  shows "reverse_match (r @ drop (length k) p) r"
proof -
  have sw: "startswith (r @ drop (length k) p) r" by (simp add: startswith_def)
  from assms(1) have "length (take (length k) p) = length k" by (simp only: startswith_def)
  then have le: "length k \<le> length p" by simp
  show ?thesis
  proof (cases "length p = length k")
    case True
    with sw show ?thesis by (simp add: reverse_match_def)
  next
    case False
    with le have lt: "length k < length p" by simp
    then have "(r @ drop (length k) p) ! length r = p ! length k"
      by (simp add: nth_append)
    with assms(2) False sw show ?thesis by (auto simp: reverse_match_def)
  qed
qed

section \<open>Round trip\<close>

text \<open>
  Claim C1, as amended. Let \<open>p\<close> be a local path that is not a named path, that is
  already in the absolute form the mapper computes (\<open>abspath\<close>, \<open>expanduser\<close> and the
  spelling of the current directory leave it unchanged) and that holds no backslash.
  Let \<open>k\<close> be the key the mapper chooses for \<open>p\<close> and \<open>r\<close> its remote prefix, free of
  backslashes. If \<open>k\<close> is a literal prefix of \<open>p\<close> that ends on a separator boundary
  (\<open>p\<close> is \<open>k\<close>, or \<open>r\<close> ends with \<open>/\<close>, or the next character of \<open>p\<close> is \<open>/\<close>), and no
  other entry's remote prefix matches the mapped path, then mapping \<open>p\<close> and mapping
  the result back returns \<open>p\<close>.
\<close>

theorem round_trip_absolute:
  assumes "distinct (map fst (path_map h))"
    and "\<not> startswith p ''#''"
    and "canonical_dest e p = Inr p"
    and "matched_keys e p (map fst (path_map h)) = Inr ms"
    and "max_len ms = Inr k"
    and "startswith p k"
    and "map_of (path_map h) k = Some r"
    and "backslash \<notin> set p" and "backslash \<notin> set r"
    and "length p = length k \<or> endswith r ''/'' \<or> p ! length k = CHR ''/''"
    and "\<forall>(l, r') \<in> set (path_map h). l \<noteq> k \<longrightarrow> \<not> reverse_match (r @ drop (length k) p) r'"
  shows "map_var e h (PStr p) = Inr (PStr (r @ drop (length k) p)) \<and>
         reverse_map_var h (PStr (r @ drop (length k) p)) = Inr (PStr p)"
proof
  let ?m = "r @ drop (length k) p"
  from assms(5) have ne: "ms \<noteq> []" by (cases ms) simp_all
  from assms(8,9) have nb: "backslash \<notin> set ?m" by (auto dest: in_set_dropD)
  from assms(7) have at: "path_map_at (path_map h) k = Inr r" by (simp add: path_map_at_def)
  from assms(4,5) ne at have "map_dest e (path_map h) p = Inr (replace_backslash ?m)"
    by (simp add: map_dest_def)
  with assms(2,3) nb show "map_var e h (PStr p) = Inr (PStr ?m)"
    by (simp add: map_var_str_def local_to_remote_def replace_backslash_id)
  from reverse_match_mapped [OF assms(6,10)] have "reverse_match ?m r" .
  from reverse_matched_only [OF assms(1,7) this assms(11)]
  have "reverse_matched (path_map h) ?m = [k]" .
  with at have "reverse_map_str (path_map h) ?m = Inr (replace_backslash (k @ drop (length r) ?m))"
    by (simp add: reverse_map_str_def)
  moreover have "k @ drop (length r) ?m = p"
    using startswith_append [OF assms(6)] by simp
  ultimately show "reverse_map_var h (PStr ?m) = Inr (PStr p)"
    using assms(8) by (simp add: replace_backslash_id)
qed

theorem round_trip_absolute_witness:
  "map_var env_ab host_ab (PStr ''/a/b/c.txt'') = Inr (PStr (''/y'' @ drop (length ''/a/b'') ''/a/b/c.txt'')) \<and>
   reverse_map_var host_ab (PStr (''/y'' @ drop (length ''/a/b'') ''/a/b/c.txt'')) = Inr (PStr ''/a/b/c.txt'')"
proof (rule round_trip_absolute [where ms = "[''/a'', ''/a/b'']"])
  show "distinct (map fst (path_map host_ab))" by code_simp
  show "\<not> startswith ''/a/b/c.txt'' ''#''" by code_simp
  show "canonical_dest env_ab ''/a/b/c.txt'' = Inr ''/a/b/c.txt''" by code_simp
  show "matched_keys env_ab ''/a/b/c.txt'' (map fst (path_map host_ab)) = Inr [''/a'', ''/a/b'']"
    by code_simp
  show "max_len [''/a'', ''/a/b''] = Inr ''/a/b''" by code_simp
  show "startswith ''/a/b/c.txt'' ''/a/b''" by code_simp
  show "map_of (path_map host_ab) ''/a/b'' = Some ''/y''" by code_simp
  show "backslash \<notin> set ''/a/b/c.txt''" by code_simp
  show "backslash \<notin> set ''/y''" by code_simp
  show "length ''/a/b/c.txt'' = length ''/a/b'' \<or> endswith ''/y'' ''/'' \<or>
      ''/a/b/c.txt'' ! length ''/a/b'' = CHR ''/''" by code_simp
  show "\<forall>(l, r') \<in> set (path_map host_ab). l \<noteq> ''/a/b'' \<longrightarrow>
      \<not> reverse_match (''/y'' @ drop (length ''/a/b'') ''/a/b/c.txt'') r'" by code_simp
qed

text \<open>
  The round trip does not hold for every covered path. A relative path comes back
  absolute: in the directory \<open>/a/w\<close>, \<open>f.txt\<close> is mapped to \<open>/x/w/f.txt\<close>, which is mapped
  back to \<open>/a/w/f.txt\<close>. A backslash comes back as a separator: \<open>/a/b/c\d\<close> is mapped to
  \<open>/y/c/d\<close>, which is mapped back to \<open>/a/b/c/d\<close>.
\<close>

theorem round_trip_counterexample:
  "matched_keys env_aw ''/a/w/f.txt'' (map fst (path_map host_a)) = Inr [''/a/''] \<and>
   map_var env_aw host_a (PStr ''f.txt'') = Inr (PStr ''/x/w/f.txt'') \<and>
   reverse_map_var host_a (PStr ''/x/w/f.txt'') = Inr (PStr ''/a/w/f.txt'') \<and>
   ''/a/w/f.txt'' \<noteq> ''f.txt'' \<and>
   matched_keys env_ab name_with_backslash (map fst (path_map host_ab)) = Inr [''/a'', ''/a/b''] \<and>
   map_var env_ab host_ab (PStr name_with_backslash) = Inr (PStr ''/y/c/d'') \<and>
   reverse_map_var host_ab (PStr ''/y/c/d'') = Inr (PStr ''/a/b/c/d'') \<and>
   ''/a/b/c/d'' \<noteq> name_with_backslash"
  by code_simp


section \<open>Staging\<close>



lemma send_example:
  "send_to_host env_ab stage_ok host_ab (PStr ''/a/b/c.txt'') =
     ([Call (SendCmd False ''/a/b/c.txt'' ''/y/c.txt'')], Inr [(PPath ''/a/b/c.txt'', ''/y/c.txt'')])"
  by code_simp

lemma receive_example:
  "receive_from_host env_ab stage_ok host_ab (PSeq [PStr ''/a/b/c.txt'', PInt 3]) =
     ([Log LInfo ''``Ignore``'', Call (ReceiveCmd False ''/y/c.txt'' ''/a/b/c.txt'')],
      Inr [(''/a/b/c.txt'', ''/y/c.txt'')])"
  by code_simp


section \<open>Retrieving results\<close>


lemma reverse_map_str_total: "\<exists>d. reverse_map_str pm dest = Inr d"
proof (cases "reverse_matched pm dest = []")
  case True
  then show ?thesis by (simp add: reverse_map_str_def)
next
  case False
  from max_len_props [OF False] obtain k where
    k: "max_len (reverse_matched pm dest) = Inr k" "k \<in> set (reverse_matched pm dest)" by blast
  from k(2) have "k \<in> set (map fst pm)" by (auto simp: reverse_matched_def)
  from path_map_at_key [OF this] obtain r where "path_map_at pm k = Inr r" by blast
  with k(1) False show ?thesis by (simp add: reverse_map_str_def)
qed

lemma reverse_map_var_total:
  "\<exists>v. reverse_map_var h x = Inr v" and "\<exists>vs. reverse_map_var_each h xs = Inr vs"
proof (induction h x and h xs rule: reverse_map_var_reverse_map_var_each.induct)
  case (1 h s)
  from reverse_map_str_total [of "path_map h" s] show ?case by auto
next
  case (2 h s)
  from reverse_map_str_total [of "path_map h" s] show ?case by auto
qed auto

lemma rewrite_output_rule:
  "rewrite_output h msg declared out = (ev, Inr v) \<Longrightarrow> output_rule h declared out v"
  by (cases "(h, msg, declared, out)" rule: rewrite_output.cases)
     (auto simp: output_rule_def split: if_splits sum.splits)

lemma rewrite_subtasks_other:
  "rewrite_subtasks h subs stack = (evs, Inr subs') \<Longrightarrow> tid \<notin> fst ` set stack \<Longrightarrow>
   map_of subs' tid = map_of subs tid"
proof (induction h subs stack arbitrary: evs subs' rule: rewrite_subtasks.induct)
  case (1 h subs)
  then show ?case by simp
next
  case (2 h subs t subparams rest)
  from "2.prems"(2) have nt: "tid \<noteq> t" and nr: "tid \<notin> fst ` set rest" by auto
  show ?case
  proof (cases "map_of subs t")
    case None
    with 2 nr show ?thesis by simp
  next
    case (Some sub)
    show ?thesis
    proof (cases "sub_output sub")
      case None
      with 2 Some nr show ?thesis by simp
    next
      case out: (Some out)
      obtain ev r where rw: "rewrite_output h ''Missing _output in subparams'' (sd_output subparams) out = (ev, r)"
        by (cases "rewrite_output h ''Missing _output in subparams'' (sd_output subparams) out")
      from "2.prems"(1) Some out rw obtain v where r: "r = Inr v"
        by (cases r) auto
      obtain evs1 r1 where rest: "rewrite_subtasks h (AList.update t (sub\<lparr>sub_output := Some v\<rparr>) subs) rest = (evs1, r1)"
        by (cases "rewrite_subtasks h (AList.update t (sub\<lparr>sub_output := Some v\<rparr>) subs) rest")
      with "2.prems"(1) Some out rw r have r1: "r1 = Inr subs'" by simp
      from "2.IH"(3) [OF Some out rw [symmetric] r _ nr, of evs1 subs'] rest r1
      have "map_of subs' tid = map_of (AList.update t (sub\<lparr>sub_output := Some v\<rparr>) subs) tid"
        by simp
      with nt show ?thesis by (simp add: update_conv')
    qed
  qed
qed

lemma rewrite_subtasks_rule:
  "rewrite_subtasks h subs stack = (evs, Inr subs') \<Longrightarrow> distinct (map fst stack) \<Longrightarrow>
   (tid, sp) \<in> set stack \<Longrightarrow> map_of subs tid = Some sub \<Longrightarrow> sub_output sub = Some out \<Longrightarrow>
   \<exists>v. output_rule h (sd_output sp) out v \<and> map_of subs' tid = Some (sub\<lparr>sub_output := Some v\<rparr>)"
proof (induction h subs stack arbitrary: evs subs' rule: rewrite_subtasks.induct)
  case (1 h subs)
  then show ?case by simp
next
  case (2 h subs t subparams rest)
  from "2.prems"(2) have nt: "t \<notin> fst ` set rest" and dr: "distinct (map fst rest)" by auto
  show ?case
  proof (cases "tid = t")
    case True
    with "2.prems"(3) nt have sp: "sp = subparams" by force
    obtain ev r where rw: "rewrite_output h ''Missing _output in subparams'' (sd_output subparams) out = (ev, r)"
      by (cases "rewrite_output h ''Missing _output in subparams'' (sd_output subparams) out")
    from "2.prems"(1,4,5) True rw obtain v where r: "r = Inr v"
      by (cases r) auto
    obtain evs1 r1 where rest: "rewrite_subtasks h (AList.update t (sub\<lparr>sub_output := Some v\<rparr>) subs) rest = (evs1, r1)"
      by (cases "rewrite_subtasks h (AList.update t (sub\<lparr>sub_output := Some v\<rparr>) subs) rest")
    with "2.prems"(1,4,5) True rw r have r1: "r1 = Inr subs'" by simp
    from rewrite_subtasks_other [OF rest [unfolded r1] nt]
    have "map_of subs' t = Some (sub\<lparr>sub_output := Some v\<rparr>)" by (simp add: update_conv')
    moreover from rewrite_output_rule rw r have "output_rule h (sd_output subparams) out v" by blast
    ultimately show ?thesis using True sp by blast
  next
    case False
    with "2.prems"(3) have mem: "(tid, sp) \<in> set rest" by simp
    show ?thesis
    proof (cases "map_of subs t")
      case None
      with 2 dr mem show ?thesis by simp
    next
      case (Some sub1)
      show ?thesis
      proof (cases "sub_output sub1")
        case None
        with 2 Some dr mem show ?thesis by simp
      next
        case out1: (Some out1)
        obtain ev r where rw: "rewrite_output h ''Missing _output in subparams'' (sd_output subparams) out1 = (ev, r)"
          by (cases "rewrite_output h ''Missing _output in subparams'' (sd_output subparams) out1")
        from "2.prems"(1) Some out1 rw obtain v where r: "r = Inr v"
          by (cases r) auto
        obtain evs1 r1 where rest: "rewrite_subtasks h (AList.update t (sub1\<lparr>sub_output := Some v\<rparr>) subs) rest = (evs1, r1)"
          by (cases "rewrite_subtasks h (AList.update t (sub1\<lparr>sub_output := Some v\<rparr>) subs) rest")
        with "2.prems"(1) Some out1 rw r have r1: "r1 = Inr subs'" by simp
        from False "2.prems"(4)
        have "map_of (AList.update t (sub1\<lparr>sub_output := Some v\<rparr>) subs) tid = Some sub"
          by (simp add: update_conv')
        from "2.IH"(3) [OF Some out1 rw [symmetric] r rest [unfolded r1] dr mem this "2.prems"(5)]
        show ?thesis .
      qed
    qed
  qed
qed


lemma translate_output_rule:
  assumes "translate_output h tf res = (ev, Inr r)"
  shows "r_subtasks r = r_subtasks res \<and>
         (case r_output res of None \<Rightarrow> r_output r = None
          | Some out \<Rightarrow> (\<exists>v. output_rule h (sd_output (tf_params tf)) out v \<and> r_output r = Some v))"
proof (cases "r_output res")
  case None
  with assms show ?thesis by (simp add: translate_output_def)
next
  case (Some out)
  obtain ev1 r1 where rw: "rewrite_output h ''Missing _output in task dict''
      (sd_output (tf_params tf)) out = (ev1, r1)"
    by (cases "rewrite_output h ''Missing _output in task dict'' (sd_output (tf_params tf)) out")
  show ?thesis
  proof (cases r1)
    case (Inl x)
    with assms Some rw show ?thesis by (simp add: translate_output_def)
  next
    case (Inr v)
    with assms Some rw have r: "r = res\<lparr>r_output := Some v\<rparr>" by (simp add: translate_output_def)
    from rw Inr have "output_rule h (sd_output (tf_params tf)) out v"
      by (simp add: rewrite_output_rule)
    with r Some show ?thesis by simp
  qed
qed

lemma translate_subtasks_rule:
  assumes "translate_subtasks h tf res = (ev, Inr r)"
  shows "r_output r = r_output res \<and>
         (case r_subtasks res of None \<Rightarrow> r_subtasks r = None
          | Some subs \<Rightarrow> (\<exists>evs subs'. rewrite_subtasks h subs (tf_task_stack tf) = (evs, Inr subs') \<and>
               r_subtasks r = Some subs'))"
proof (cases "r_subtasks res")
  case None
  with assms show ?thesis by (simp add: translate_subtasks_def)
next
  case (Some subs)
  obtain ev1 r1 where rw: "rewrite_subtasks h subs (tf_task_stack tf) = (ev1, r1)"
    by (cases "rewrite_subtasks h subs (tf_task_stack tf)")
  show ?thesis
  proof (cases r1)
    case (Inl x)
    with assms Some rw show ?thesis by (simp add: translate_subtasks_def)
  next
    case (Inr subs')
    with assms Some rw have r: "r = res\<lparr>r_subtasks := Some subs'\<rparr>"
      by (simp add: translate_subtasks_def)
    with Some rw Inr show ?thesis by simp
  qed
qed

lemma translate_result_rule:
  assumes "translate_result h tf res = (ev, Inr r)"
  shows "(case r_output res of None \<Rightarrow> r_output r = None
          | Some out \<Rightarrow> (\<exists>v. output_rule h (sd_output (tf_params tf)) out v \<and> r_output r = Some v)) \<and>
         (case r_subtasks res of None \<Rightarrow> r_subtasks r = None
          | Some subs \<Rightarrow> (\<exists>evs subs'. rewrite_subtasks h subs (tf_task_stack tf) = (evs, Inr subs') \<and>
               r_subtasks r = Some subs'))"
proof -
  obtain ev1 r1 where t1: "translate_output h tf res = (ev1, r1)"
    by (cases "translate_output h tf res")
  show ?thesis
  proof (cases r1)
    case (Inl x)
    with assms t1 show ?thesis by (simp add: translate_result_def)
  next
    case (Inr res1)
    obtain ev2 r2 where t2: "translate_subtasks h tf res1 = (ev2, r2)"
      by (cases "translate_subtasks h tf res1")
    with assms t1 Inr have "r2 = Inr r" by (simp add: translate_result_def)
    with t2 have t2': "translate_subtasks h tf res1 = (ev2, Inr r)" by simp
    from t1 Inr have t1': "translate_output h tf res = (ev1, Inr res1)" by simp
    from translate_output_rule [OF t1'] have
      o1: "r_subtasks res1 = r_subtasks res"
      and o2: "(case r_output res of None \<Rightarrow> r_output res1 = None
          | Some out \<Rightarrow> (\<exists>v. output_rule h (sd_output (tf_params tf)) out v \<and> r_output res1 = Some v))"
      by simp_all
    from translate_subtasks_rule [OF t2'] have
      s1: "r_output r = r_output res1"
      and s2: "(case r_subtasks res1 of None \<Rightarrow> r_subtasks r = None
          | Some subs \<Rightarrow> (\<exists>evs subs'. rewrite_subtasks h subs (tf_task_stack tf) = (evs, Inr subs') \<and>
               r_subtasks r = Some subs'))"
      by simp_all
    from o2 s2 show ?thesis by (simp only: o1 s1)
  qed
qed

lemma stage_and_translate_ok:
  assumes "stage_and_translate e se re h tf res = (ev, Inr r)"
  shows "\<exists>ev5. translate_result h tf res = (ev5, Inr r)"
proof -
  obtain ev3 r3 where o: "receive_outputs e se re h (tf_params tf) = (ev3, r3)"
    by (cases "receive_outputs e se re h (tf_params tf)")
  obtain ev4 r4 where f: "receive_from_hosts e se re h (tf_params tf) = (ev4, r4)"
    by (cases "receive_from_hosts e se re h (tf_params tf)")
  obtain ev5 r5 where t: "translate_result h tf res = (ev5, r5)"
    by (cases "translate_result h tf res")
  from assms o obtain u3 where r3: "r3 = Inr u3"
    by (cases r3) (simp_all add: stage_and_translate_def)
  from assms o f r3 obtain u4 where r4: "r4 = Inr u4"
    by (cases r4) (simp_all add: stage_and_translate_def)
  from assms o f t r3 r4 have "r5 = Inr r"
    by (simp add: stage_and_translate_def)
  with t show ?thesis by blast
qed

lemma read_result_ok:
  assumes "read_result e se re h task_id tf = (ev, Inr r)"
    and "tf_result tf = Some res" and "\<not> result_failed res"
  shows "\<exists>ev5. translate_result h tf res = (ev5, Inr r)"
proof -
  obtain ev1 r1 where s: "stage_and_translate e se re h tf res = (ev1, r1)"
    by (cases "stage_and_translate e se re h tf res")
  with assms have "r1 = Inr r" by (simp add: read_result_def)
  with s stage_and_translate_ok show ?thesis by blast
qed

lemma receive_result_translate:
  assumes "receive_result e se re h task_id tf = (ev, Inr r)"
    and "tf_result tf = Some res" and "\<not> result_failed res"
  shows "\<exists>ev5. translate_result h tf res = (ev5, Inr r)"
proof -
  obtain ev1 r1 where s: "read_result e se re h task_id tf = (ev1, r1)"
    by (cases "read_result e se re h task_id tf")
  with assms(1) have "r1 = Inr r"
    by (simp add: receive_result_def Let_def split: if_splits)
  with s read_result_ok [OF _ assms(2,3)] show ?thesis by blast
qed

lemma receive_undetermined_example:
  "receive_result env_aw stage_ok result_env_ok host_a ''t0'' tf_undetermined =
     ([Call (ScpCmd ''t0'')],
      Inr (result_remote\<lparr>r_output := Some (PSeq [PStr ''/a/w/f.txt'']),
             r_subtasks := Some [(''t1'', \<lparr>sub_ret_code = Some 0,
                                    sub_output = Some (PSeq [PStr ''/a/w/g.txt''])\<rparr>)]\<rparr>))"
  by code_simp

text \<open>
  Claim C8, as amended. When \<open>receive_result\<close> returns the result of a job that has not
  failed, an \<open>output\<close> field of the retrieved result has become: empty, when the task
  has no \<open>_output\<close>; its paths mapped back by \<open>_reverse_map_var\<close>, when the \<open>_output\<close> of the
  task is an undetermined \<open>sos_targets\<close>; and the \<open>_output\<close> that the task declares, as
  it is, otherwise. The same holds for the \<open>output\<close> of every subtask of \<open>task_stack\<close>
  (with distinct identifiers) that the result records, from the \<open>_output\<close> of the
  subtask.
\<close>

theorem receive_result_output_rule:
  assumes "receive_result e se re h task_id tf = (ev, Inr r)"
    and "tf_result tf = Some res"
    and "\<not> result_failed res"
  shows "(case r_output res of
            None \<Rightarrow> r_output r = None
          | Some out \<Rightarrow>
              (\<exists>v. output_rule h (sd_output (tf_params tf)) out v \<and> r_output r = Some v)) \<and>
         (distinct (map fst (tf_task_stack tf)) \<longrightarrow>
            (\<forall>subs tid sp sub out.
               r_subtasks res = Some subs \<and> (tid, sp) \<in> set (tf_task_stack tf) \<and>
               map_of subs tid = Some sub \<and> sub_output sub = Some out \<longrightarrow>
                 (\<exists>subs' v. r_subtasks r = Some subs' \<and> output_rule h (sd_output sp) out v \<and>
                    map_of subs' tid = Some (sub\<lparr>sub_output := Some v\<rparr>))))"
proof -
  from receive_result_translate [OF assms] obtain ev5 where
    t: "translate_result h tf res = (ev5, Inr r)" by blast
  from translate_result_rule [OF t] have
    top: "(case r_output res of None \<Rightarrow> r_output r = None
          | Some out \<Rightarrow> (\<exists>v. output_rule h (sd_output (tf_params tf)) out v \<and> r_output r = Some v))"
    and subs: "(case r_subtasks res of None \<Rightarrow> r_subtasks r = None
          | Some subs \<Rightarrow> (\<exists>evs subs'. rewrite_subtasks h subs (tf_task_stack tf) = (evs, Inr subs') \<and>
               r_subtasks r = Some subs'))"
    by simp_all
  have "\<exists>subs' v. r_subtasks r = Some subs' \<and> output_rule h (sd_output sp) out v \<and>
                    map_of subs' tid = Some (sub\<lparr>sub_output := Some v\<rparr>)"
    if d: "distinct (map fst (tf_task_stack tf))"
      and s: "r_subtasks res = Some subs" and m: "(tid, sp) \<in> set (tf_task_stack tf)"
      and l: "map_of subs tid = Some sub" and o: "sub_output sub = Some out"
    for subs tid sp sub out
  proof -
    from subs s obtain evs subs' where
      rw: "rewrite_subtasks h subs (tf_task_stack tf) = (evs, Inr subs')"
      and r: "r_subtasks r = Some subs'" by auto
    from rewrite_subtasks_rule [OF rw d m l o] r show ?thesis by blast
  qed
  with top show ?thesis by blast
qed

theorem receive_result_output_rule_witness:
  "r_output (result_remote\<lparr>r_output := Some (PSeq [PStr ''/a/w/f.txt'']),
             r_subtasks := Some [(''t1'', \<lparr>sub_ret_code = Some 0,
                                    sub_output = Some (PSeq [PStr ''/a/w/g.txt''])\<rparr>)]\<rparr>) =
     Some (PSeq [PStr ''/a/w/f.txt'']) \<and>
   output_rule host_a (sd_output (tf_params tf_undetermined)) (PSeq [PStr ''/x/w/f.txt''])
     (PSeq [PStr ''/a/w/f.txt''])"
proof -
  let ?r = "result_remote\<lparr>r_output := Some (PSeq [PStr ''/a/w/f.txt'']),
             r_subtasks := Some [(''t1'', \<lparr>sub_ret_code = Some 0,
                                    sub_output = Some (PSeq [PStr ''/a/w/g.txt''])\<rparr>)]\<rparr>"
  have 2: "tf_result tf_undetermined = Some result_remote" by (simp add: tf_undetermined_def)
  have 3: "\<not> result_failed result_remote" by (simp add: result_failed_def result_remote_def)
  have 4: "r_output result_remote = Some (PSeq [PStr ''/x/w/f.txt''])"
    by (simp add: result_remote_def)
  from receive_result_output_rule [OF receive_undetermined_example 2 3]
  have "case r_output result_remote of
            None \<Rightarrow> r_output ?r = None
          | Some out \<Rightarrow>
              (\<exists>v. output_rule host_a (sd_output (tf_params tf_undetermined)) out v \<and>
                 r_output ?r = Some v)"
    by (rule conjunct1)
  then obtain v where v: "output_rule host_a (sd_output (tf_params tf_undetermined))
      (PSeq [PStr ''/x/w/f.txt'']) v" "r_output ?r = Some v"
    by (simp only: 4 option.case) (elim exE conjE)
  from v(2) have "v = PSeq [PStr ''/a/w/f.txt'']" by simp
  with v show ?thesis by simp
qed

text \<open>
  The \<open>output\<close> of a retrieved result is not always mapped back: for the task that
  declares the output \<open>f.txt\<close>, the result comes back with the remote path
  \<open>/x/w/f.txt\<close>, which \<open>_reverse_map_var\<close> maps to \<open>/a/w/f.txt\<close>, and \<open>receive_result\<close>
  returns the declared \<open>f.txt\<close> (and \<open>g.txt\<close> for the subtask).
\<close>

theorem receive_result_counterexample:
  "receive_result env_aw stage_ok result_env_ok host_a ''t0'' tf_declared =
     ([Call (ScpCmd ''t0''), Call (ReceiveCmd False ''/x/w/f.txt'' ''f.txt''),
       Log LInfo ''received''],
      Inr (result_remote\<lparr>r_output := Some (PSeq [PStr ''f.txt'']),
             r_subtasks := Some [(''t1'', \<lparr>sub_ret_code = Some 0,
                                    sub_output = Some (PSeq [PStr ''g.txt''])\<rparr>)]\<rparr>)) \<and>
   r_output result_remote = Some (PSeq [PStr ''/x/w/f.txt'']) \<and>
   reverse_map_var host_a (PSeq [PStr ''/x/w/f.txt'']) = Inr (PSeq [PStr ''/a/w/f.txt'']) \<and>
   PSeq [PStr ''f.txt''] \<noteq> PSeq [PStr ''/a/w/f.txt'']"
  by code_simp

section \<open>Resource ceilings\<close>

lemma ceiling_exceeded_over:
  "over_ceiling pe lim rt \<Longrightarrow> \<exists>msg. ceiling_exceeded pe lim rt = Inr (Some msg)"
  by (auto simp: over_ceiling_def ceiling_exceeded_def)

text \<open>
  Claim C6, as amended. For a task whose file exists and whose requested memory, cores
  or walltime exceeds the ceiling of the host: \<open>LocalHost.prepare_task\<close> logs an error
  and returns \<open>False\<close>, provided that \<open>format_HHMMSS\<close> accepts the \<open>max_walltime\<close> of the
  configuration (it is called on it before the three tests are made);
  \<open>RemoteHost._prepare_task\<close>, which makes the tests first, raises a \<open>ValueError\<close> with
  the same message, and the public \<open>RemoteHost.prepare_task\<close> catches it, logs it and
  returns \<open>False\<close>. Nothing is staged and the task file is left as it was.
\<close>

theorem prepare_task_over_ceiling:
  assumes "store task_id = Some tf"
    and "over_ceiling pe lim (sd_runtime (tf_params tf))"
  shows "\<exists>msg.
           (\<forall>formatted. format_max_walltime pe lim = Inr formatted \<longrightarrow>
              local_prepare_task e pe lim task_id store =
                ([Log LError msg], Inr False, store)) \<and>
           remote_prepare_task_body e se pe h lim task_id store =
             ([], Inl (ValueError msg), store) \<and>
           remote_prepare_task e se pe h lim task_id store =
             ([Log LError ''error''], False, store)"
proof -
  from ceiling_exceeded_over [OF assms(2)] obtain msg where
    m: "ceiling_exceeded pe lim (sd_runtime (tf_params tf)) = Inr (Some msg)" by blast
  from assms(1) m have 1: "\<forall>formatted. format_max_walltime pe lim = Inr formatted \<longrightarrow>
      local_prepare_task e pe lim task_id store = ([Log LError msg], Inr False, store)"
    by (simp add: local_prepare_task_def)
  from assms(1) m have 2: "remote_prepare_task_body e se pe h lim task_id store =
      ([], Inl (ValueError msg), store)"
    by (simp add: remote_prepare_task_body_def)
  from 2 have 3: "remote_prepare_task e se pe h lim task_id store =
      ([Log LError ''error''], False, store)"
    by (simp add: remote_prepare_task_def)
  from 1 2 3 show ?thesis by blast
qed

text \<open>The host of 1 GB and one hour, and the task that requests 2 GB.\<close>

theorem prepare_task_over_ceiling_witness:
  "store_2GB ''t0'' = Some tf_2GB \<and>
   over_ceiling prep_env_ok limits_1GB (sd_runtime (tf_params tf_2GB)) \<and>
   format_max_walltime prep_env_ok limits_1GB = Inr (Some ''01:00:00'') \<and>
   (\<exists>msg.
      local_prepare_task env_ab prep_env_ok limits_1GB ''t0'' store_2GB =
        ([Log LError msg], Inr False, store_2GB) \<and>
      remote_prepare_task_body env_ab stage_ok prep_env_ok host_ab limits_1GB ''t0'' store_2GB =
        ([], Inl (ValueError msg), store_2GB) \<and>
      remote_prepare_task env_ab stage_ok prep_env_ok host_ab limits_1GB ''t0'' store_2GB =
        ([Log LError ''error''], False, store_2GB))"
proof -
  have s: "store_2GB ''t0'' = Some tf_2GB" by (simp add: store_2GB_def)
  have o: "over_ceiling prep_env_ok limits_1GB (sd_runtime (tf_params tf_2GB))"
    by (simp add: over_ceiling_def exceeds_mem_def limits_1GB_def tf_2GB_def runtime_none_def)
  have f: "format_max_walltime prep_env_ok limits_1GB = Inr (Some ''01:00:00'')"
    by (simp add: format_max_walltime_def prep_env_ok_def limits_1GB_def)
  from prepare_task_over_ceiling [where store = store_2GB and task_id = "''t0''" and tf = tf_2GB
      and pe = prep_env_ok and lim = limits_1GB and e = env_ab and se = stage_ok
      and h = host_ab, OF s o]
  obtain msg where
    l: "\<forall>formatted. format_max_walltime prep_env_ok limits_1GB = Inr formatted \<longrightarrow>
          local_prepare_task env_ab prep_env_ok limits_1GB ''t0'' store_2GB =
            ([Log LError msg], Inr False, store_2GB)"
    and b: "remote_prepare_task_body env_ab stage_ok prep_env_ok host_ab limits_1GB ''t0''
              store_2GB = ([], Inl (ValueError msg), store_2GB)"
    and r: "remote_prepare_task env_ab stage_ok prep_env_ok host_ab limits_1GB ''t0''
              store_2GB = ([Log LError ''error''], False, store_2GB)"
    by (elim exE conjE) (rule that)
  from spec [OF l, of "Some ''01:00:00''"] f
  have "local_prepare_task env_ab prep_env_ok limits_1GB ''t0'' store_2GB =
      ([Log LError msg], Inr False, store_2GB)" by (rule mp)
  with b r have "\<exists>msg.
      local_prepare_task env_ab prep_env_ok limits_1GB ''t0'' store_2GB =
        ([Log LError msg], Inr False, store_2GB) \<and>
      remote_prepare_task_body env_ab stage_ok prep_env_ok host_ab limits_1GB ''t0'' store_2GB =
        ([], Inl (ValueError msg), store_2GB) \<and>
      remote_prepare_task env_ab stage_ok prep_env_ok host_ab limits_1GB ''t0'' store_2GB =
        ([Log LError ''error''], False, store_2GB)"
    by (intro exI [of _ msg] conjI)
  with s o f show ?thesis by (intro conjI)
qed

text \<open>
  Without the proviso the local agent does not return \<open>False\<close>: on a host whose
  \<open>max_walltime\<close> is \<open>abc\<close>, which \<open>format_HHMMSS\<close> rejects, the task that requests 2 GB
  of the 1 GB allowed makes \<open>LocalHost.prepare_task\<close> raise the \<open>ValueError\<close> of
  \<open>format_HHMMSS\<close>; no error is logged and nothing is returned.
\<close>

theorem prepare_task_counterexample:
  "store_2GB ''t0'' = Some tf_2GB \<and>
   over_ceiling prep_env_ok limits_bad_walltime (sd_runtime (tf_params tf_2GB)) \<and>
   local_prepare_task env_ab prep_env_ok limits_bad_walltime ''t0'' store_2GB =
     ([], Inl (ValueError ''Invalid time''), store_2GB)"
  by (simp add: store_2GB_def over_ceiling_def exceeds_mem_def limits_bad_walltime_def
      tf_2GB_def runtime_none_def local_prepare_task_def format_max_walltime_def
      prep_env_ok_def Let_def)

text \<open>A request within the ceilings is accepted by both agents.\<close>

lemma prepare_task_within_ceiling_example:
  "fst (snd (local_prepare_task env_ab prep_env_ok
        \<lparr>max_mem = KeyValue 4000000000, max_cores = KeyAbsent,
         max_walltime = KeyValue ''01:00:00''\<rparr> ''t0'' store_2GB)) =
     Inr True \<and>
   fst (snd (remote_prepare_task env_ab stage_ok prep_env_ok host_ab
        \<lparr>max_mem = KeyValue 4000000000, max_cores = KeyAbsent,
         max_walltime = KeyValue ''01:00:00''\<rparr> ''t0'' store_2GB)) =
     True"
  by (simp add: local_prepare_task_def remote_prepare_task_def remote_prepare_task_body_def
      ceiling_exceeded_def exceeds_mem_def exceeds_cores_def exceeds_walltime_def
      store_2GB_def tf_2GB_def runtime_none_def stage_task_def send_targets_def
      send_to_host_option_def check_workdir_def prep_env_ok_def env_ab_def startswith_def
      new_runtime_def format_max_walltime_def Let_def)

section \<open>The tunneled socket\<close>

lemma create_tunneled_socket_timeout:
  "net (polls st) = Timeout \<Longrightarrow>
   create_tunneled_socket net st =
     (Inr None,
      st\<lparr>sockets := Suc (sockets st), polls := Suc (polls st),
         trace := trace st @ [OpenTunnel (sockets st), SendAlive (sockets st),
                              CloseSocket (sockets st)]\<rparr>)"
  by (simp add: create_tunneled_socket_def send_alive_and_poll_def Let_def)

lemma create_tunneled_socket_reply:
  "net (polls st) = Reply ret \<Longrightarrow>
   create_tunneled_socket net st =
     ((if ret = ''yes'' then Inr (Some (sockets st)) else Inl AssertionError),
      st\<lparr>sockets := Suc (sockets st), polls := Suc (polls st),
         trace := trace st @ [OpenTunnel (sockets st), SendAlive (sockets st)]\<rparr>)"
  by (simp add: create_tunneled_socket_def send_alive_and_poll_def Let_def)

lemma connect_loop_timeout_retry:
  "net (polls st) = Timeout \<Longrightarrow> attempts < 5 \<Longrightarrow>
   connect_loop net attempts st =
     connect_loop net (Suc attempts)
       (st\<lparr>sockets := Suc (sockets st), polls := Suc (polls st),
          trace := trace st @ [Waiting attempts, OpenTunnel (sockets st), SendAlive (sockets st),
                               CloseSocket (sockets st), Sleep]\<rparr>)"
  by (subst connect_loop.simps) (simp add: create_tunneled_socket_timeout)

lemma connect_loop_timeout_last:
  "net (polls st) = Timeout \<Longrightarrow> \<not> attempts < 5 \<Longrightarrow>
   connect_loop net attempts st =
     (Inl (RuntimeError ''Failed to start a remote server''),
      st\<lparr>sockets := Suc (sockets st), polls := Suc (polls st),
         trace := trace st @ [Waiting attempts, OpenTunnel (sockets st), SendAlive (sockets st),
                              CloseSocket (sockets st), LogFailed]\<rparr>)"
  by (subst connect_loop.simps) (simp add: create_tunneled_socket_timeout)

lemma connect_loop_yes:
  "net (polls st) = Reply ''yes'' \<Longrightarrow>
   connect_loop net attempts st =
     (Inr (Some (sockets st)),
      st\<lparr>remote_socket := Some (sockets st), sockets := Suc (sockets st),
         polls := Suc (polls st),
         trace := trace st @ [Waiting attempts, OpenTunnel (sockets st),
                              SendAlive (sockets st)]\<rparr>)"
  by (subst connect_loop.simps) (simp add: create_tunneled_socket_reply)

lemma connect_loop_other:
  "net (polls st) = Reply ret \<Longrightarrow> ret \<noteq> ''yes'' \<Longrightarrow>
   connect_loop net attempts st =
     (Inl AssertionError,
      st\<lparr>sockets := Suc (sockets st), polls := Suc (polls st),
         trace := trace st @ [Waiting attempts, OpenTunnel (sockets st),
                              SendAlive (sockets st)]\<rparr>)"
  by (subst connect_loop.simps) (simp add: create_tunneled_socket_reply)

text \<open>When every poll times out, the loop opens six tunnels, one for each value 0 to 5
  of \<open>attempts\<close>, sleeps five times, and raises.\<close>

lemma connect_to_server_six_attempts:
  "connect_to_server net_silent st_fresh =
  (Inl (RuntimeError ''Failed to start a remote server''),
   \<lparr>remote_socket = None, polls = 6, sockets = 6,
    trace = [StartServer,
      Waiting 0, OpenTunnel 0, SendAlive 0, CloseSocket 0, Sleep,
      Waiting 1, OpenTunnel 1, SendAlive 1, CloseSocket 1, Sleep,
      Waiting 2, OpenTunnel 2, SendAlive 2, CloseSocket 2, Sleep,
      Waiting 3, OpenTunnel 3, SendAlive 3, CloseSocket 3, Sleep,
      Waiting 4, OpenTunnel 4, SendAlive 4, CloseSocket 4, Sleep,
      Waiting 5, OpenTunnel 5, SendAlive 5, CloseSocket 5, LogFailed]\<rparr>)"
  by (simp add: connect_to_server_def test_tunneled_socket_def st_fresh_def net_silent_def
      connect_loop_timeout_retry connect_loop_timeout_last eval_nat_numeral)

lemma connect_loop_succeeds:
  "attempts + n \<le> 5 \<Longrightarrow> (\<forall>i<n. net (polls st + i) = Timeout) \<Longrightarrow>
   net (polls st + n) = Reply ''yes'' \<Longrightarrow>
   \<exists>st' rest. connect_loop net attempts st = (Inr (Some (sockets st + n)), st') \<and>
     remote_socket st' = Some (sockets st + n) \<and> trace st' = trace st @ rest \<and>
     count_list rest Sleep = n \<and> count_list rest LogFailed = 0"
proof (induction n arbitrary: attempts st)
  case 0
  then have "net (polls st) = Reply ''yes''" by simp
  from connect_loop_yes [where net = net and st = st and attempts = attempts, OF this] show ?case by simp
next
  case (Suc n)
  from Suc.prems(2) have t: "net (polls st) = Timeout" by force
  from Suc.prems(1) have lt: "attempts < 5" by simp
  let ?st = "st\<lparr>sockets := Suc (sockets st), polls := Suc (polls st),
          trace := trace st @ [Waiting attempts, OpenTunnel (sockets st), SendAlive (sockets st),
                               CloseSocket (sockets st), Sleep]\<rparr>"
  have a: "Suc attempts + n \<le> 5" using Suc.prems(1) by simp
  have b: "\<forall>i<n. net (polls ?st + i) = Timeout"
  proof (intro allI impI)
    fix i assume "i < n"
    then have "Suc i < Suc n" by simp
    with Suc.prems(2) have "net (polls st + Suc i) = Timeout" by blast
    then show "net (polls ?st + i) = Timeout" by simp
  qed
  have c: "net (polls ?st + n) = Reply ''yes''" using Suc.prems(3) by simp
  from Suc.IH [where st = "?st", OF a b c] obtain st' rest where
    r: "connect_loop net (Suc attempts) ?st = (Inr (Some (sockets ?st + n)), st')"
       "remote_socket st' = Some (sockets ?st + n)" "trace st' = trace ?st @ rest"
       "count_list rest Sleep = n" "count_list rest LogFailed = 0" by blast
  let ?rest = "[Waiting attempts, OpenTunnel (sockets st), SendAlive (sockets st),
                CloseSocket (sockets st), Sleep] @ rest"
  from r connect_loop_timeout_retry [where net = net and st = st, OF t lt]
  have "connect_loop net attempts st = (Inr (Some (sockets st + Suc n)), st')"
    "remote_socket st' = Some (sockets st + Suc n)" "trace st' = trace st @ ?rest"
    "count_list ?rest Sleep = Suc n" "count_list ?rest LogFailed = 0"
    by simp_all
  then show ?case by blast
qed

lemma connect_loop_asserts:
  "attempts + n \<le> 5 \<Longrightarrow> (\<forall>i<n. net (polls st + i) = Timeout) \<Longrightarrow>
   net (polls st + n) = Reply ret \<Longrightarrow> ret \<noteq> ''yes'' \<Longrightarrow>
   \<exists>st'. connect_loop net attempts st = (Inl AssertionError, st') \<and>
     remote_socket st' = remote_socket st"
proof (induction n arbitrary: attempts st)
  case 0
  then have "net (polls st) = Reply ret" by simp
  from connect_loop_other [where net = net and st = st and attempts = attempts, OF this "0.prems"(4)] show ?case by simp
next
  case (Suc n)
  from Suc.prems(2) have t: "net (polls st) = Timeout" by force
  from Suc.prems(1) have lt: "attempts < 5" by simp
  let ?st = "st\<lparr>sockets := Suc (sockets st), polls := Suc (polls st),
          trace := trace st @ [Waiting attempts, OpenTunnel (sockets st), SendAlive (sockets st),
                               CloseSocket (sockets st), Sleep]\<rparr>"
  have a: "Suc attempts + n \<le> 5" using Suc.prems(1) by simp
  have b: "\<forall>i<n. net (polls ?st + i) = Timeout"
  proof (intro allI impI)
    fix i assume "i < n"
    then have "Suc i < Suc n" by simp
    with Suc.prems(2) have "net (polls st + Suc i) = Timeout" by blast
    then show "net (polls ?st + i) = Timeout" by simp
  qed
  have c: "net (polls ?st + n) = Reply ret" using Suc.prems(3) by simp
  from Suc.IH [where st = "?st", OF a b c Suc.prems(4)] connect_loop_timeout_retry [where net = net and st = st, OF t lt]
  show ?case by simp
qed

lemma connect_loop_fails:
  "(\<forall>i. net (polls st + i) = Timeout) \<Longrightarrow>
   \<exists>st'. connect_loop net attempts st =
       (Inl (RuntimeError ''Failed to start a remote server''), st') \<and>
     remote_socket st' = remote_socket st"
proof (induction "5 - attempts" arbitrary: attempts st)
  case 0
  then have ge: "\<not> attempts < 5" by simp
  from "0.prems" have t: "net (polls st) = Timeout" by (metis add_0_right)
  from connect_loop_timeout_last [where net = net and st = st, OF t ge] show ?case by simp
next
  case (Suc k)
  then have lt: "attempts < 5" and k: "k = 5 - Suc attempts" by simp_all
  from Suc.prems have t: "net (polls st) = Timeout" by (metis add_0_right)
  let ?st = "st\<lparr>sockets := Suc (sockets st), polls := Suc (polls st),
          trace := trace st @ [Waiting attempts, OpenTunnel (sockets st), SendAlive (sockets st),
                               CloseSocket (sockets st), Sleep]\<rparr>"
  have "\<forall>i. net (polls ?st + i) = Timeout"
  proof
    fix i
    from Suc.prems have "net (polls st + Suc i) = Timeout" by blast
    then show "net (polls ?st + i) = Timeout" by simp
  qed
  from Suc.hyps(1) [where st = "?st", OF k this] connect_loop_timeout_retry [where net = net and st = st, OF t lt]
  show ?case by simp
qed

lemma connect_to_server_restart:
  assumes "remote_socket st = None \<or> net (polls st) = Timeout"
  shows "connect_to_server net st =
     connect_loop net 0 ((after_probe st)\<lparr>trace := trace (after_probe st) @ [StartServer]\<rparr>)"
proof (cases "remote_socket st")
  case None
  then show ?thesis
    by (simp add: connect_to_server_def test_tunneled_socket_def after_probe_def)
next
  case (Some sock)
  with assms have "net (polls st) = Timeout" by simp
  with Some show ?thesis
    by (simp add: connect_to_server_def test_tunneled_socket_def after_probe_def
        send_alive_and_poll_def)
qed

lemma connect_to_server_probe_reply:
  assumes "remote_socket st = Some sock" and "net (polls st) = Reply ret"
  shows "connect_to_server net st =
     ((if ret = ''yes'' then Inr (Some sock) else Inl AssertionError), after_probe st)"
  using assms
  by (simp add: connect_to_server_def test_tunneled_socket_def after_probe_def
      send_alive_and_poll_def)

text \<open>
  Claim C5, as amended. \<open>connect_to_server\<close> returns the cached socket when the probe
  of it is answered by \<open>yes\<close> within the poll, and does nothing else. When a probe, or
  the test of a new socket, is answered by something else, the assertion of the source
  fails and \<open>AssertionError\<close> is raised. When there is no cached socket or its probe
  times out, the remote helper is started, and new sockets are opened and tested, with
  a sleep after each test that times out: if one of the first five tests is answered
  by \<open>yes\<close>, that socket is cached and returned; if every test times out, the fatal
  \<open>RuntimeError\<close> is raised and the cached socket is left as it was.
\<close>

theorem connect_to_server_cases:
  "(remote_socket st = Some sock \<and> net (polls st) = Reply ''yes'' \<longrightarrow>
      connect_to_server net st = (Inr (Some sock), after_probe st)) \<and>
   (remote_socket st = Some sock \<and> net (polls st) = Reply ret \<and> ret \<noteq> ''yes'' \<longrightarrow>
      connect_to_server net st = (Inl AssertionError, after_probe st)) \<and>
   (remote_socket st = None \<or> net (polls st) = Timeout \<longrightarrow>
      (n < 5 \<and> (\<forall>i<n. net (polls (after_probe st) + i) = Timeout) \<and>
       net (polls (after_probe st) + n) = Reply ''yes'' \<longrightarrow>
         (\<exists>st' rest. connect_to_server net st = (Inr (Some (sockets st + n)), st') \<and>
            remote_socket st' = Some (sockets st + n) \<and>
            trace st' = trace (after_probe st) @ StartServer # rest \<and>
            count_list rest Sleep = n \<and> count_list rest LogFailed = 0)) \<and>
      (n < 5 \<and> (\<forall>i<n. net (polls (after_probe st) + i) = Timeout) \<and>
       net (polls (after_probe st) + n) = Reply ret \<and> ret \<noteq> ''yes'' \<longrightarrow>
         (\<exists>st'. connect_to_server net st = (Inl AssertionError, st') \<and>
            remote_socket st' = remote_socket st)) \<and>
      ((\<forall>i. net (polls (after_probe st) + i) = Timeout) \<longrightarrow>
         (\<exists>st'. connect_to_server net st =
              (Inl (RuntimeError ''Failed to start a remote server''), st') \<and>
            remote_socket st' = remote_socket st)))"
proof (intro conjI impI)
  assume "remote_socket st = Some sock \<and> net (polls st) = Reply ''yes''"
  then show "connect_to_server net st = (Inr (Some sock), after_probe st)"
    using connect_to_server_probe_reply [of st sock net "''yes''"] by simp
next
  assume "remote_socket st = Some sock \<and> net (polls st) = Reply ret \<and> ret \<noteq> ''yes''"
  then show "connect_to_server net st = (Inl AssertionError, after_probe st)"
    using connect_to_server_probe_reply [of st sock net ret] by simp
next
  let ?st = "(after_probe st)\<lparr>trace := trace (after_probe st) @ [StartServer]\<rparr>"
  have so: "sockets ?st = sockets st" and rs: "remote_socket ?st = remote_socket st"
    and po: "polls ?st = polls (after_probe st)"
    by (simp_all add: after_probe_def split: option.splits)
  assume r: "remote_socket st = None \<or> net (polls st) = Timeout"
  note restart = connect_to_server_restart [where net = net and st = st, OF r]
  {
    assume a: "n < 5 \<and> (\<forall>i<n. net (polls (after_probe st) + i) = Timeout) \<and>
       net (polls (after_probe st) + n) = Reply ''yes''"
    then have "0 + n \<le> 5" "\<forall>i<n. net (polls ?st + i) = Timeout"
      "net (polls ?st + n) = Reply ''yes''" by (simp_all add: po)
    from connect_loop_succeeds [where net = net and st = "?st" and attempts = 0 and n = n, OF this] obtain st' rest where
      "connect_loop net 0 ?st = (Inr (Some (sockets ?st + n)), st')"
      "remote_socket st' = Some (sockets ?st + n)" "trace st' = trace ?st @ rest"
      "count_list rest Sleep = n" "count_list rest LogFailed = 0" by blast
    then have "connect_to_server net st = (Inr (Some (sockets st + n)), st') \<and>
            remote_socket st' = Some (sockets st + n) \<and>
            trace st' = trace (after_probe st) @ StartServer # rest \<and>
            count_list rest Sleep = n \<and> count_list rest LogFailed = 0"
      by (simp add: restart so)
    then show "\<exists>st' rest. connect_to_server net st = (Inr (Some (sockets st + n)), st') \<and>
            remote_socket st' = Some (sockets st + n) \<and>
            trace st' = trace (after_probe st) @ StartServer # rest \<and>
            count_list rest Sleep = n \<and> count_list rest LogFailed = 0"
      by blast
  }
  {
    assume a: "n < 5 \<and> (\<forall>i<n. net (polls (after_probe st) + i) = Timeout) \<and>
       net (polls (after_probe st) + n) = Reply ret \<and> ret \<noteq> ''yes''"
    then have "0 + n \<le> 5" "\<forall>i<n. net (polls ?st + i) = Timeout"
      "net (polls ?st + n) = Reply ret" "ret \<noteq> ''yes''" by (simp_all add: po)
    from connect_loop_asserts [where net = net and st = "?st" and attempts = 0 and n = n, OF this]
    show "\<exists>st'. connect_to_server net st = (Inl AssertionError, st') \<and>
            remote_socket st' = remote_socket st"
      by (simp add: restart rs)
  }
  {
    assume "\<forall>i. net (polls (after_probe st) + i) = Timeout"
    then have "\<forall>i. net (polls ?st + i) = Timeout" by (simp add: po)
    from connect_loop_fails [where net = net and st = "?st" and attempts = 0, OF this]
    show "\<exists>st'. connect_to_server net st =
              (Inl (RuntimeError ''Failed to start a remote server''), st') \<and>
            remote_socket st' = remote_socket st"
      by (simp add: restart rs)
  }
qed

theorem connect_to_server_cases_witness:
  "connect_to_server net_late (st_cached\<lparr>polls := 3\<rparr>) =
     (Inr (Some 0), after_probe (st_cached\<lparr>polls := 3\<rparr>)) \<and>
   (\<exists>st'. connect_to_server net_late st_cached = (Inr (Some 3), st') \<and>
      remote_socket st' = Some 3) \<and>
   (\<exists>st'. connect_to_server net_silent st_cached =
      (Inl (RuntimeError ''Failed to start a remote server''), st') \<and>
      remote_socket st' = Some 0) \<and>
   connect_to_server net_no st_cached = (Inl AssertionError, after_probe st_cached)"
proof (intro conjI)
  let ?warm = "st_cached\<lparr>polls := 3\<rparr>"
  have "remote_socket ?warm = Some 0 \<and> net_late (polls ?warm) = Reply ''yes''"
    by (simp add: st_cached_def net_late_def)
  with connect_to_server_cases [where st = ?warm and sock = 0 and net = net_late]
  show "connect_to_server net_late ?warm = (Inr (Some 0), after_probe ?warm)"
    by (elim conjE impE) simp_all
next
  have p: "polls (after_probe st_cached) = 1" "sockets st_cached = 1"
    by (simp_all add: after_probe_def st_cached_def)
  have h1: "remote_socket st_cached = None \<or> net_late (polls st_cached) = Timeout"
    by (simp add: st_cached_def net_late_def)
  have h2: "2 < (5::nat) \<and> (\<forall>i<2. net_late (polls (after_probe st_cached) + i) = Timeout) \<and>
       net_late (polls (after_probe st_cached) + 2) = Reply ''yes''"
    by (simp add: p net_late_def)
  from connect_to_server_cases [where st = st_cached and net = net_late and n = 2]
  have "remote_socket st_cached = None \<or> net_late (polls st_cached) = Timeout \<longrightarrow>
      (2 < (5::nat) \<and> (\<forall>i<2. net_late (polls (after_probe st_cached) + i) = Timeout) \<and>
       net_late (polls (after_probe st_cached) + 2) = Reply ''yes'' \<longrightarrow>
         (\<exists>st' rest. connect_to_server net_late st_cached = (Inr (Some (sockets st_cached + 2)), st') \<and>
            remote_socket st' = Some (sockets st_cached + 2) \<and>
            trace st' = trace (after_probe st_cached) @ StartServer # rest \<and>
            count_list rest Sleep = 2 \<and> count_list rest LogFailed = 0))"
    by blast
  from mp [OF mp [OF this h1] h2] obtain st' where
    "connect_to_server net_late st_cached = (Inr (Some (sockets st_cached + 2)), st')"
    "remote_socket st' = Some (sockets st_cached + 2)"
    by (elim exE conjE) (rule that)
  then show "\<exists>st'. connect_to_server net_late st_cached = (Inr (Some 3), st') \<and>
      remote_socket st' = Some 3"
    by (intro exI [of _ st']) (simp add: p)
next
  have h1: "remote_socket st_cached = None \<or> net_silent (polls st_cached) = Timeout"
    by (simp add: net_silent_def)
  have h2: "\<forall>i. net_silent (polls (after_probe st_cached) + i) = Timeout"
    by (simp add: net_silent_def)
  from connect_to_server_cases [where st = st_cached and net = net_silent]
  have "remote_socket st_cached = None \<or> net_silent (polls st_cached) = Timeout \<longrightarrow>
      ((\<forall>i. net_silent (polls (after_probe st_cached) + i) = Timeout) \<longrightarrow>
         (\<exists>st'. connect_to_server net_silent st_cached =
              (Inl (RuntimeError ''Failed to start a remote server''), st') \<and>
            remote_socket st' = remote_socket st_cached))"
    by blast
  from mp [OF mp [OF this h1] h2]
  show "\<exists>st'. connect_to_server net_silent st_cached =
      (Inl (RuntimeError ''Failed to start a remote server''), st') \<and>
      remote_socket st' = Some 0"
    by (simp add: st_cached_def)
next
  have "remote_socket st_cached = Some 0 \<and> net_no (polls st_cached) = Reply ''no'' \<and>
      ''no'' \<noteq> ''yes''"
    by (simp add: st_cached_def net_no_def)
  with connect_to_server_cases [where st = st_cached and sock = 0 and net = net_no and ret = "''no''"]
  show "connect_to_server net_no st_cached = (Inl AssertionError, after_probe st_cached)"
    by (elim conjE impE) simp_all
qed

text \<open>
  A reply other than \<open>yes\<close> does not lead to a new helper and new attempts: with the
  socket \<open>0\<close> cached and a helper that answers \<open>no\<close>, the probe is the only thing that
  happens, and \<open>AssertionError\<close> is raised.
\<close>

theorem connect_to_server_counterexample:
  "connect_to_server net_no st_cached =
     (Inl AssertionError,
      \<lparr>remote_socket = Some 0, polls = 1, sockets = 1, trace = [SendAlive 0]\<rparr>)"
  by (simp add: connect_to_server_def test_tunneled_socket_def send_alive_and_poll_def
      st_cached_def net_no_def)

section \<open>The registry of host agents\<close>

lemma attach_agent_result:
  assumes "attach_agent cfg start_engine reg = (Inr h, reg')"
  shows "map_of (host_instances reg) (cfg_alias cfg) = Some (h_host_agent h) \<and>
         host_instances reg' = host_instances reg \<and> next_obj reg' = next_obj reg"
proof -
  from assms obtain r where r: "map_of (host_instances reg) (cfg_alias cfg) = Some r"
    by (cases "map_of (host_instances reg) (cfg_alias cfg)") (simp_all add: attach_agent_def)
  with assms obtain a where a: "objects reg r = Some a"
    by (cases "objects reg r") (simp_all add: attach_agent_def)
  show ?thesis
  proof (cases "a_task_engine a")
    case None
    with assms r a show ?thesis
      by (cases start_engine) (auto simp: attach_agent_def Let_def)
  next
    case (Some te)
    with assms r a show ?thesis
      by (cases start_engine; cases te) (auto simp: attach_agent_def Let_def split: if_splits)
  qed
qed

lemma attach_agent_cached:
  assumes "map_of (host_instances reg) (cfg_alias cfg) = Some r"
    and "objects reg r = Some a" and "a_task_engine a = Some te"
  shows "\<exists>h reg'. attach_agent cfg start_engine reg = (Inr h, reg') \<and> h_host_agent h = r \<and>
           host_instances reg' = host_instances reg \<and> next_obj reg' = next_obj reg"
  using assms
  by (cases start_engine; cases te) (auto simp: attach_agent_def Let_def)

lemma get_task_and_workflow_engine_ok:
  assumes "engine_type_of cfg = ''process'' \<or> fst (load_engines env (engine_type_of cfg)) \<or>
       snd (load_engines env (engine_type_of cfg))"
  shows "\<exists>te we. get_task_and_workflow_engine env (engine_type_of cfg) = Inr (te, we)"
  using assms
  by (cases "load_engines env (engine_type_of cfg)")
     (auto simp: get_task_and_workflow_engine_def)

lemma create_agent_ok:
  assumes "can_create env cfg test_connection"
  shows "\<exists>reg1 a te. create_agent env cfg test_connection reg = (Inr (), reg1) \<and>
           map_of (host_instances reg1) (cfg_alias cfg) = Some (next_obj reg) \<and>
           objects reg1 (next_obj reg) = Some a \<and> a_task_engine a = Some te"
proof -
  from assms have c: "\<not> (cfg_address cfg \<noteq> ''localhost'' \<and> test_connection \<and> \<not> connection_ok env cfg)"
    by (auto simp: can_create_def)
  from assms get_task_and_workflow_engine_ok [of cfg env] obtain te we where
    e: "get_task_and_workflow_engine env (engine_type_of cfg) = Inr (te, we)"
    by (auto simp: can_create_def)
  show ?thesis using c e
    by (simp add: create_agent_def Let_def update_conv' del: not_None_eq)
qed

lemma lookup_new_agent:
  assumes "get_config env al = Inr cfg" and "can_create env cfg test_connection"
    and "needs_new_agent reg (cfg_alias cfg) = Inr True"
  shows "\<exists>h reg'. host_lookup env al start_engine test_connection reg = (Inr h, reg') \<and>
           h_host_agent h = next_obj reg \<and>
           map_of (host_instances reg') (cfg_alias cfg) = Some (next_obj reg)"
proof -
  from create_agent_ok [OF assms(2), of reg] obtain reg1 a te where
    c: "create_agent env cfg test_connection reg = (Inr (), reg1)"
       "map_of (host_instances reg1) (cfg_alias cfg) = Some (next_obj reg)"
       "objects reg1 (next_obj reg) = Some a" "a_task_engine a = Some te" by blast
  from attach_agent_cached [OF c(2,3,4), of start_engine] obtain h reg' where
    h: "attach_agent cfg start_engine reg1 = (Inr h, reg')" "h_host_agent h = next_obj reg"
       "host_instances reg' = host_instances reg1" by blast
  from assms(1,3) c(1) h(1)
  have "host_lookup env al start_engine test_connection reg = (Inr h, reg')"
    by (simp add: host_lookup_def get_host_agent_def)
  with h c(2) show ?thesis by simp
qed

lemma lookup_registers:
  assumes "host_lookup env al start_engine test_connection reg = (Inr h, reg')"
  shows "\<exists>cfg. get_config env al = Inr cfg \<and>
           map_of (host_instances reg') (cfg_alias cfg) = Some (h_host_agent h)"
proof -
  from assms obtain cfg where cfg: "get_config env al = Inr cfg"
    by (cases "get_config env al") (simp_all add: host_lookup_def)
  with assms have g: "get_host_agent env cfg start_engine test_connection reg = (Inr h, reg')"
    by (simp add: host_lookup_def)
  then obtain b where b: "needs_new_agent reg (cfg_alias cfg) = Inr b"
    by (cases "needs_new_agent reg (cfg_alias cfg)") (simp_all add: get_host_agent_def)
  have "\<exists>reg1. attach_agent cfg start_engine reg1 = (Inr h, reg')"
  proof (cases b)
    case False
    with g b show ?thesis by (auto simp: get_host_agent_def)
  next
    case True
    obtain r1 reg1 where c: "create_agent env cfg test_connection reg = (r1, reg1)"
      by (cases "create_agent env cfg test_connection reg")
    with g b True show ?thesis by (cases r1) (auto simp: get_host_agent_def)
  qed
  then obtain reg1 where "attach_agent cfg start_engine reg1 = (Inr h, reg')" ..
  from attach_agent_result [OF this] cfg show ?thesis by simp
qed

lemma lookup_cached:
  assumes "get_config env al = Inr cfg"
    and "map_of (host_instances reg) (cfg_alias cfg) = Some r" and "healthy reg r"
  shows "\<exists>h reg'. host_lookup env al start_engine test_connection reg = (Inr h, reg') \<and>
           h_host_agent h = r \<and> host_instances reg' = host_instances reg"
proof -
  from assms(3) obtain a en where a: "objects reg r = Some a"
    "a_task_engine a = Some (Some en)" "\<not> e_is_stopped en"
    by (auto simp: healthy_def split: option.splits)
  with assms(2) have n: "needs_new_agent reg (cfg_alias cfg) = Inr False"
    by (simp add: needs_new_agent_def)
  from attach_agent_cached [OF assms(2) a(1,2), of start_engine] obtain h reg' where
    "attach_agent cfg start_engine reg = (Inr h, reg')" "h_host_agent h = r"
    "host_instances reg' = host_instances reg" by blast
  with assms(1) n show ?thesis by (simp add: host_lookup_def get_host_agent_def)
qed

lemma wf_registry_ref:
  "wf_registry reg \<Longrightarrow> map_of (host_instances reg) al = Some r \<Longrightarrow> r < next_obj reg"
  by (auto simp: wf_registry_def dest: map_of_SomeD)

text \<open>
  Agents that have a task engine. Let the alias resolve to a configuration for which
  an agent can be created. If a lookup has returned an agent that has a task engine,
  and the engine has not stopped, the next lookup with the same alias returns the same
  agent. After \<open>reset\<close> the registry is empty, and the next lookup returns a new agent,
  different from every agent that was cached before. A cached agent whose task engine
  has stopped is replaced in the registry, on the next lookup, by a new agent, which is
  returned.
\<close>

lemma registry_identity_with_task_engine:
  assumes "wf_registry reg" and "get_config env al = Inr cfg"
    and "can_create env cfg test_connection"
  shows "(host_lookup env al start_engine test_connection reg = (Inr h1, reg1) \<and>
            healthy reg1 (h_host_agent h1) \<longrightarrow>
            (\<exists>h2 reg2. host_lookup env al start_engine2 test_connection2 reg1 = (Inr h2, reg2) \<and>
               h_host_agent h2 = h_host_agent h1)) \<and>
         (host_instances (reset reg) = [] \<and>
            (\<exists>h reg'. host_lookup env al start_engine test_connection (reset reg) = (Inr h, reg') \<and>
               (\<forall>(al', r) \<in> set (host_instances reg). h_host_agent h \<noteq> r))) \<and>
         (map_of (host_instances reg) (cfg_alias cfg) = Some r \<and> stopped reg r \<longrightarrow>
            (\<exists>h reg'. host_lookup env al start_engine test_connection reg = (Inr h, reg') \<and>
               h_host_agent h \<noteq> r \<and>
               map_of (host_instances reg') (cfg_alias cfg) = Some (h_host_agent h)))"
proof (intro conjI impI)
  assume a: "host_lookup env al start_engine test_connection reg = (Inr h1, reg1) \<and>
            healthy reg1 (h_host_agent h1)"
  with lookup_registers [of env al start_engine test_connection reg h1 reg1] assms(2)
  have "map_of (host_instances reg1) (cfg_alias cfg) = Some (h_host_agent h1)" by auto
  from lookup_cached [OF assms(2) this, of start_engine2 test_connection2] a
  show "\<exists>h2 reg2. host_lookup env al start_engine2 test_connection2 reg1 = (Inr h2, reg2) \<and>
               h_host_agent h2 = h_host_agent h1"
    by blast
next
  show "host_instances (reset reg) = []" by (simp add: reset_def)
next
  have n: "needs_new_agent (reset reg) (cfg_alias cfg) = Inr True"
    by (simp add: needs_new_agent_def reset_def)
  from lookup_new_agent [OF assms(2,3) n, of start_engine] obtain h reg' where
    h: "host_lookup env al start_engine test_connection (reset reg) = (Inr h, reg')"
       "h_host_agent h = next_obj (reset reg)" by blast
  have "next_obj (reset reg) = next_obj reg" by (simp add: reset_def)
  with h(2) assms(1) have "\<forall>(al', r) \<in> set (host_instances reg). h_host_agent h \<noteq> r"
    by (auto simp: wf_registry_def)
  with h(1)
  show "\<exists>h reg'. host_lookup env al start_engine test_connection (reset reg) = (Inr h, reg') \<and>
               (\<forall>(al', r) \<in> set (host_instances reg). h_host_agent h \<noteq> r)"
    by blast
next
  assume a: "map_of (host_instances reg) (cfg_alias cfg) = Some r \<and> stopped reg r"
  then have n: "needs_new_agent reg (cfg_alias cfg) = Inr True"
    by (auto simp: needs_new_agent_def stopped_def split: option.splits)
  from lookup_new_agent [OF assms(2,3) n, of start_engine] obtain h reg' where
    h: "host_lookup env al start_engine test_connection reg = (Inr h, reg')"
       "h_host_agent h = next_obj reg"
       "map_of (host_instances reg') (cfg_alias cfg) = Some (next_obj reg)" by blast
  from wf_registry_ref [OF assms(1)] a have "r < next_obj reg" by blast
  with h show "\<exists>h reg'. host_lookup env al start_engine test_connection reg = (Inr h, reg') \<and>
               h_host_agent h \<noteq> r \<and>
               map_of (host_instances reg') (cfg_alias cfg) = Some (h_host_agent h)"
    by auto
qed

lemma first_lookup_example:
  "host_lookup registry_env_ok ''remote'' True True registry_empty =
     (Inr \<lparr>h_alias = ''remote'', h_host_agent = 0, h_task_engine = Some (Some engine_running)\<rparr>,
      registry_with engine_running)"
  by (simp add: host_lookup_def registry_env_ok_def get_host_agent_def needs_new_agent_def
      registry_empty_def create_agent_def Let_def get_task_and_workflow_engine_def
      engine_type_of_def attach_agent_def registry_with_def engine_running_def)

lemma registry_identity_example:
  "(\<exists>h2 reg2. host_lookup registry_env_ok ''remote'' False False (registry_with engine_running) =
       (Inr h2, reg2) \<and> h_host_agent h2 = 0) \<and>
   (\<exists>h reg'. host_lookup registry_env_ok ''remote'' True True (reset (registry_with engine_running)) =
       (Inr h, reg') \<and> h_host_agent h \<noteq> 0) \<and>
   (\<exists>h reg'. host_lookup registry_env_ok ''remote'' True True (registry_with engine_stopped) =
       (Inr h, reg') \<and> h_host_agent h \<noteq> 0)"
proof (intro conjI)
  have cfg: "get_config registry_env_ok ''remote'' = Inr cfg_remote"
    by (simp add: registry_env_ok_def cfg_remote_def)
  have can: "can_create registry_env_ok cfg_remote True"
    by (simp add: can_create_def registry_env_ok_def cfg_remote_def engine_type_of_def)
  have wf0: "wf_registry registry_empty"
    by (simp add: wf_registry_def registry_empty_def)
  have wf1: "wf_registry (registry_with en)" for en
    by (simp add: wf_registry_def registry_with_def)
  have al: "cfg_alias cfg_remote = ''remote''" by (simp add: cfg_remote_def)
  let ?h1 = "\<lparr>h_alias = ''remote'', h_host_agent = 0, h_task_engine = Some (Some engine_running)\<rparr>"
  have hl: "healthy (registry_with engine_running) (h_host_agent ?h1)"
    by (simp add: healthy_def registry_with_def engine_running_def)
  from registry_identity_with_task_engine [OF wf0 cfg can, where ?start_engine = True
      and ?h1.0 = ?h1 and ?reg1.0 = "registry_with engine_running"
      and ?start_engine2.0 = False and ?test_connection2.0 = False]
  have "host_lookup registry_env_ok ''remote'' True True registry_empty =
          (Inr ?h1, registry_with engine_running) \<and>
        healthy (registry_with engine_running) (h_host_agent ?h1) \<longrightarrow>
        (\<exists>h2 reg2. host_lookup registry_env_ok ''remote'' False False (registry_with engine_running) =
           (Inr h2, reg2) \<and> h_host_agent h2 = h_host_agent ?h1)"
    by (rule conjunct1)
  with first_lookup_example hl
  show "\<exists>h2 reg2. host_lookup registry_env_ok ''remote'' False False (registry_with engine_running) =
       (Inr h2, reg2) \<and> h_host_agent h2 = 0"
    by simp
next
  have cfg: "get_config registry_env_ok ''remote'' = Inr cfg_remote"
    by (simp add: registry_env_ok_def cfg_remote_def)
  have can: "can_create registry_env_ok cfg_remote True"
    by (simp add: can_create_def registry_env_ok_def cfg_remote_def engine_type_of_def)
  have wf1: "wf_registry (registry_with engine_running)"
    by (simp add: wf_registry_def registry_with_def)
  from registry_identity_with_task_engine [OF wf1 cfg can, where ?start_engine = True]
  have "\<exists>h reg'. host_lookup registry_env_ok ''remote'' True True (reset (registry_with engine_running)) =
          (Inr h, reg') \<and>
        (\<forall>(al', r) \<in> set (host_instances (registry_with engine_running)). h_host_agent h \<noteq> r)"
    by blast
  then show "\<exists>h reg'. host_lookup registry_env_ok ''remote'' True True
       (reset (registry_with engine_running)) = (Inr h, reg') \<and> h_host_agent h \<noteq> 0"
    by (simp add: registry_with_def)
next
  have cfg: "get_config registry_env_ok ''remote'' = Inr cfg_remote"
    by (simp add: registry_env_ok_def cfg_remote_def)
  have can: "can_create registry_env_ok cfg_remote True"
    by (simp add: can_create_def registry_env_ok_def cfg_remote_def engine_type_of_def)
  have wf1: "wf_registry (registry_with engine_stopped)"
    by (simp add: wf_registry_def registry_with_def)
  have st: "map_of (host_instances (registry_with engine_stopped)) (cfg_alias cfg_remote) = Some 0 \<and>
      stopped (registry_with engine_stopped) 0"
    by (simp add: registry_with_def cfg_remote_def stopped_def engine_stopped_def)
  from registry_identity_with_task_engine [OF wf1 cfg can, where ?start_engine = True and ?r = 0]
  have "map_of (host_instances (registry_with engine_stopped)) (cfg_alias cfg_remote) = Some 0 \<and>
      stopped (registry_with engine_stopped) 0 \<longrightarrow>
      (\<exists>h reg'. host_lookup registry_env_ok ''remote'' True True (registry_with engine_stopped) =
          (Inr h, reg') \<and> h_host_agent h \<noteq> 0 \<and>
          map_of (host_instances reg') (cfg_alias cfg_remote) = Some (h_host_agent h))"
    by blast
  from mp [OF this st]
  show "\<exists>h reg'. host_lookup registry_env_ok ''remote'' True True (registry_with engine_stopped) =
       (Inr h, reg') \<and> h_host_agent h \<noteq> 0"
    by blast
qed

text \<open>
  Claim C9. Two successive lookups with the same alias return the same cached agent.
  They do when the agent has a task engine that has not stopped (above), and not when
  it has none: for a queue type whose plugin provides a workflow engine and no task
  engine, which \<open>_get_task_and_workflow_engine\<close> accepts, the first lookup creates the
  agent, stores \<open>None\<close> as its \<open>_task_engine\<close> and returns; the second lookup finds the
  alias in the registry, reads \<open>_is_stopped\<close> from that \<open>None\<close> and raises
  \<open>AttributeError\<close>, leaving the registry as it was. The end of \<open>_get_host_agent\<close> tests
  for a task engine that is \<open>None\<close> before it reads \<open>is_alive()\<close>; the eviction test does
  not.
\<close>

theorem lookup_workflow_engine_only:
  "get_config registry_env_wf ''remote'' =
     Inr \<lparr>cfg_alias = ''remote'', cfg_address = ''remote.example.org'',
          cfg_queue_type = Some ''wf''\<rparr> \<and>
   load_engines registry_env_wf ''wf'' = (False, True) \<and>
   host_lookup registry_env_wf ''remote'' True True registry_empty =
     (Inr \<lparr>h_alias = ''remote'', h_host_agent = 0, h_task_engine = Some None\<rparr>,
      registry_wf_only) \<and>
   host_lookup registry_env_wf ''remote'' True True registry_wf_only =
     (Inl (AttributeError ''_is_stopped''), registry_wf_only)"
  by (simp add: host_lookup_def registry_env_wf_def get_host_agent_def needs_new_agent_def
      registry_empty_def registry_wf_only_def create_agent_def Let_def
      get_task_and_workflow_engine_def engine_type_of_def attach_agent_def strip_def
      is_space_def)

end
